theory Spec2Isabelle
  imports Main
begin

section \<open>Scripted console dialogues of the GNS3 test bed (gns3/gns3utils.py, gns3/scenario.py)\<close>

text \<open>
  The two dialogue functions \<^verbatim>\<open>install_vyos_image_on_node\<close> and
  \<^verbatim>\<open>configure_vyos_image_on_node\<close> are straight-line Python: a fixed sequence of
  \<^verbatim>\<open>tn.write\<close>, \<^verbatim>\<open>tn.expect\<close> and \<^verbatim>\<open>print\<close> statements inside
  \<^verbatim>\<open>with Telnet(hostname, telnet_port) as tn:\<close>. Each statement of the source is one
  value of the datatype \<open>stmt\<close>, the body of each function is the list of its statements in
  source order, and \<open>exec\<close> gives every statement the meaning Python gives it. Everything
  outside the repository (the remote console behind \<^verbatim>\<open>telnetlib\<close>, the local file system,
  \<^verbatim>\<open>subprocess.Popen\<close>, the UTF-8 decoder, \<^verbatim>\<open>hashlib.md5\<close>) is a field of the record
  \<open>world\<close>, over which every theorem quantifies.
\<close>

subsection \<open>Values\<close>

text \<open>Python \<^verbatim>\<open>bytes\<close> are lists of 8-bit characters; a Python \<^verbatim>\<open>str\<close> is a list of
  Unicode code points.\<close>

type_synonym bytes = string
type_synonym pystr = "nat list"

text \<open>An ASCII \<^verbatim>\<open>str\<close> literal of the source.\<close>

definition str :: "string \<Rightarrow> pystr" where
  "str cs = map of_char cs"

text \<open>The backslash of the regular expressions \<^verbatim>\<open>b"vyos@vyos:~\$"\<close> etc.\<close>

definition bs :: bytes where
  "bs = [CHR 0x5C]"

datatype exn =
    PopenError
  | FileNotFoundError
  | ConnectionRefusedError
  | BrokenPipeError
  | EOFError
  | UnicodeDecodeError
  | AttributeError
  | IndexError

text \<open>
  What one read call on the Telnet object (\<^verbatim>\<open>read_until\<close> or \<^verbatim>\<open>expect\<close>) meets:
  \<^item> \<open>Match t g\<close>: the awaited pattern arrives in time; \<open>t\<close> is the data read up to
    the end of the match and \<open>g\<close> the matched bytes (\<^verbatim>\<open>m.group()\<close>);
  \<^item> \<open>NoMatch t\<close>: the pattern does not arrive and the connection stays open; \<open>t\<close> is
    what arrived instead;
  \<^item> \<open>Eof t\<close>: the peer closes the connection before the pattern arrives; \<open>t\<close> is
    what was still buffered.
\<close>

datatype reply = Match bytes bytes | NoMatch bytes | Eof bytes

record world =
  popen_ok :: bool
  file_read :: "nat \<Rightarrow> string \<Rightarrow> bytes option"
  connect_ok :: bool
  console :: "nat \<Rightarrow> reply"
  send_ok :: "nat \<Rightarrow> bool"
  utf8_decode :: "bytes \<Rightarrow> pystr option"
  md5_hexdigest :: "bytes \<Rightarrow> pystr"

text \<open>
  \<open>file_read w k p\<close> is the content the \<open>k\<close>-th read of a local file finds at path
  \<open>p\<close> (\<open>None\<close>: the file cannot be opened); \<open>console w k\<close> is what the \<open>k\<close>-th
  read call on the connection meets; \<open>send_ok w k\<close> says whether the \<open>k\<close>-th
  \<^verbatim>\<open>tn.write\<close> succeeds.
\<close>

datatype event =
    Popen string
  | Kill
  | FileRead string
  | Connect string int
  | Send bytes
  | Close
  | Warn pystr
  | PrintInt int
  | PrintStr pystr

datatype status = Running | Finished | Returned | Raised exn | Blocked

text \<open>
  \<open>Running\<close>: control is inside the function; \<open>Finished\<close>: the function ran to its last
  line; \<open>Returned\<close>: it left through the \<^verbatim>\<open>return\<close> of the digest step; \<open>Raised e\<close>:
  it left with an exception; \<open>Blocked\<close>: it waits forever in a read without timeout.
  The fields \<open>out_idx\<close>, \<open>out_match\<close>, \<open>out_text\<close> are the variable \<^verbatim>\<open>out\<close>.
\<close>

record sess =
  status :: status
  trace :: "event list"
  nfile :: nat
  nread :: nat
  nsent :: nat
  out_idx :: int
  out_match :: "bytes option"
  out_text :: bytes

definition start :: sess where
  "start = \<lparr>status = Running, trace = [], nfile = 0, nread = 0, nsent = 0,
            out_idx = 0, out_match = None, out_text = []\<rparr>"

definition emit :: "event \<Rightarrow> sess \<Rightarrow> sess" where
  "emit e s = s\<lparr>trace := trace s @ [e]\<rparr>"

definition raise :: "exn \<Rightarrow> sess \<Rightarrow> sess" where
  "raise e s = s\<lparr>status := Raised e\<rparr>"

subsection \<open>Python string helpers\<close>

text \<open>\<^verbatim>\<open>u.split("\n")[-1]\<close>: what follows the last line feed.\<close>

definition last_line :: "pystr \<Rightarrow> pystr" where
  "last_line u = rev (takeWhile (\<lambda>c. c \<noteq> 10) (rev u))"

text \<open>\<^verbatim>\<open>str.isspace\<close> on one code point, and \<^verbatim>\<open>u.split()[0]\<close>, which raises
  IndexError when \<open>u\<close> holds nothing but white space.\<close>

definition py_isspace :: "nat \<Rightarrow> bool" where
  "py_isspace c = ((9 \<le> c \<and> c \<le> 13) \<or> (28 \<le> c \<and> c \<le> 32) \<or> c = 133 \<or> c = 160
     \<or> c = 5760 \<or> (8192 \<le> c \<and> c \<le> 8202) \<or> c = 8232 \<or> c = 8233 \<or> c = 8239
     \<or> c = 8287 \<or> c = 12288)"

definition first_token :: "pystr \<Rightarrow> pystr option" where
  "first_token u =
     (let v = dropWhile py_isspace u
      in if v = [] then None else Some (takeWhile (\<lambda>c. \<not> py_isspace c) v))"

subsection \<open>base64.b64encode and the remote base64 --decode\<close>

text \<open>
  \<^verbatim>\<open>base64.b64encode\<close> (Python standard library) and the \<^verbatim>\<open>base64 --decode\<close> run on
  the router are the Base64 of RFC 4648 with the standard alphabet and padding. The
  decoder skips line feeds, as the coreutils tool does.
\<close>

definition b64_alphabet :: bytes where
  "b64_alphabet = ''ABCDEFGHIJKLMNOPQRSTUVWXYZabcdefghijklmnopqrstuvwxyz0123456789+/''"

definition b64_char :: "nat \<Rightarrow> char" where
  "b64_char i = b64_alphabet ! (i mod 64)"

definition b64_index :: "char \<Rightarrow> nat option" where
  "b64_index c =
     (let i = length (takeWhile (\<lambda>x. x \<noteq> c) b64_alphabet)
      in if i < 64 then Some i else None)"

fun b64encode :: "bytes \<Rightarrow> bytes" where
  "b64encode [] = []"
| "b64encode [a] =
     (let x = of_char a
      in [b64_char (x div 4), b64_char (x mod 4 * 16), CHR ''='', CHR ''=''])"
| "b64encode [a, b] =
     (let x = of_char a; y = of_char b
      in [b64_char (x div 4), b64_char (x mod 4 * 16 + y div 16),
          b64_char (y mod 16 * 4), CHR ''=''])"
| "b64encode (a # b # c # rest) =
     (let x = of_char a; y = of_char b; z = of_char c
      in b64_char (x div 4) # b64_char (x mod 4 * 16 + y div 16) #
         b64_char (y mod 16 * 4 + z div 64) # b64_char (z mod 64) # b64encode rest)"

fun b64decode_quads :: "bytes \<Rightarrow> bytes option" where
  "b64decode_quads [] = Some []"
| "b64decode_quads (p # q # r # t # rest) =
     (if rest = [] \<and> r = CHR ''='' \<and> t = CHR ''='' then
        (case (b64_index p, b64_index q) of
           (Some i, Some j) \<Rightarrow> Some [char_of (i * 4 + j div 16)]
         | _ \<Rightarrow> None)
      else if rest = [] \<and> t = CHR ''='' then
        (case (b64_index p, b64_index q, b64_index r) of
           (Some i, Some j, Some k) \<Rightarrow>
             Some [char_of (i * 4 + j div 16), char_of (j mod 16 * 16 + k div 4)]
         | _ \<Rightarrow> None)
      else
        (case (b64_index p, b64_index q, b64_index r, b64_index t) of
           (Some i, Some j, Some k, Some l) \<Rightarrow>
             (case b64decode_quads rest of
                None \<Rightarrow> None
              | Some ds \<Rightarrow>
                  Some (char_of (i * 4 + j div 16) # char_of (j mod 16 * 16 + k div 4) #
                        char_of (k mod 4 * 64 + l) # ds))
         | _ \<Rightarrow> None))"
| "b64decode_quads _ = None"

definition b64decode :: "bytes \<Rightarrow> bytes option" where
  "b64decode e = b64decode_quads (filter (\<lambda>c. c \<noteq> CHR 0x0A) e)"

subsection \<open>Statements and their execution\<close>

datatype stmt =
    ReadUntil bytes
  | PrintLastLine
  | Write bytes
  | Expect "bytes list" nat
  | PrintIndex
  | PrintText
  | Sleep nat
  | ReturnIfNoMatch pystr
  | CompareChecksum pystr

text \<open>
  \<^item> \<open>ReadUntil p\<close> is \<^verbatim>\<open>out = tn.read_until(p)\<close>, a read with no timeout: it returns at
    a match, returns what is buffered (or raises EOFError when nothing is) once the peer
    has closed, and otherwise never returns.
  \<^item> \<open>Expect ps t\<close> is \<^verbatim>\<open>out = tn.expect(ps, timeout=t)\<close>: \<^verbatim>\<open>(0, m, text)\<close> at a match
    (every call of the source passes one pattern), \<^verbatim>\<open>(-1, None, text)\<close> when the timeout
    passes or the peer closes with data left, EOFError when the peer closes with no data.
  \<^item> \<open>PrintLastLine\<close> is \<^verbatim>\<open>print(out.decode("utf-8").split("\n")[-1])\<close>,
    \<open>PrintIndex\<close> is \<^verbatim>\<open>print(out[0])\<close>, \<open>PrintText\<close> is
    \<^verbatim>\<open>print(out[2].decode("utf-8"))\<close>.
  \<^item> \<open>ReturnIfNoMatch msg\<close> is \<^verbatim>\<open>if out[0] == -1: warnings.warn(msg, RuntimeWarning); return\<close>.
  \<^item> \<open>CompareChecksum local\<close> is
    \<^verbatim>\<open>uploaded_checksum = out[1].group().decode("utf-8").split()[0]\<close> followed by the
    \<^verbatim>\<open>if uploaded_checksum != local_checksum: warnings.warn(...) else: print(...)\<close>.
\<close>

fun exec :: "world \<Rightarrow> stmt \<Rightarrow> sess \<Rightarrow> sess" where
  "exec w (ReadUntil pat) s =
     (case console w (nread s) of
        Match t g \<Rightarrow> s\<lparr>nread := Suc (nread s), out_text := t\<rparr>
      | NoMatch t \<Rightarrow> s\<lparr>nread := Suc (nread s), status := Blocked\<rparr>
      | Eof t \<Rightarrow>
          if t = [] then raise EOFError (s\<lparr>nread := Suc (nread s)\<rparr>)
          else s\<lparr>nread := Suc (nread s), out_text := t\<rparr>)"
| "exec w PrintLastLine s =
     (case utf8_decode w (out_text s) of
        None \<Rightarrow> raise UnicodeDecodeError s
      | Some u \<Rightarrow> emit (PrintStr (last_line u)) s)"
| "exec w (Write b) s =
     (if send_ok w (nsent s) then emit (Send b) (s\<lparr>nsent := Suc (nsent s)\<rparr>)
      else raise BrokenPipeError (s\<lparr>nsent := Suc (nsent s)\<rparr>))"
| "exec w (Expect pats timeout) s =
     (case console w (nread s) of
        Match t g \<Rightarrow>
          s\<lparr>nread := Suc (nread s), out_idx := 0, out_match := Some g, out_text := t\<rparr>
      | NoMatch t \<Rightarrow>
          s\<lparr>nread := Suc (nread s), out_idx := - 1, out_match := None, out_text := t\<rparr>
      | Eof t \<Rightarrow>
          if t = [] then raise EOFError (s\<lparr>nread := Suc (nread s)\<rparr>)
          else s\<lparr>nread := Suc (nread s), out_idx := - 1, out_match := None, out_text := t\<rparr>)"
| "exec w PrintIndex s = emit (PrintInt (out_idx s)) s"
| "exec w PrintText s =
     (case utf8_decode w (out_text s) of
        None \<Rightarrow> raise UnicodeDecodeError s
      | Some u \<Rightarrow> emit (PrintStr u) s)"
| "exec w (Sleep n) s = s"
| "exec w (ReturnIfNoMatch msg) s =
     (if out_idx s = - 1 then (emit (Warn msg) s)\<lparr>status := Returned\<rparr> else s)"
| "exec w (CompareChecksum local_checksum) s =
     (case out_match s of
        None \<Rightarrow> raise AttributeError s
      | Some g \<Rightarrow>
          (case utf8_decode w g of
             None \<Rightarrow> raise UnicodeDecodeError s
           | Some u \<Rightarrow>
               (case first_token u of
                  None \<Rightarrow> raise IndexError s
                | Some uploaded_checksum \<Rightarrow>
                    if uploaded_checksum \<noteq> local_checksum
                    then emit (Warn (str ''Checksums do not match.'')) s
                    else emit (PrintStr (str ''Checksums match.'')) s)))"

text \<open>Statements run in order while control stays in the block.\<close>

fun run :: "world \<Rightarrow> stmt list \<Rightarrow> sess \<Rightarrow> sess" where
  "run w [] s = s"
| "run w (c # cs) s = (if status s = Running then run w cs (exec w c s) else s)"

text \<open>
  \<^verbatim>\<open>with Telnet(hostname, telnet_port) as tn: body\<close>. The constructor connects or
  raises; the context manager closes the connection when control leaves the body, whether
  at its end, through \<^verbatim>\<open>return\<close> or with an exception.
\<close>

definition with_Telnet :: "world \<Rightarrow> string \<Rightarrow> int \<Rightarrow> stmt list \<Rightarrow> sess \<Rightarrow> sess" where
  "with_Telnet w hostname telnet_port body s =
     (if status s \<noteq> Running then s
      else if \<not> connect_ok w then raise ConnectionRefusedError s
      else (let s' = run w body (emit (Connect hostname telnet_port) s)
            in if status s' = Blocked then s' else emit Close s'))"

text \<open>\<^verbatim>\<open>if pre_exec: pre_proc = subprocess.Popen(shlex.split(pre_exec))\<close> and
  \<^verbatim>\<open>if pre_exec: pre_proc.kill()\<close>; \<^verbatim>\<open>None\<close> and the empty string are false.\<close>

definition truthy :: "string option \<Rightarrow> bool" where
  "truthy pre_exec = (case pre_exec of None \<Rightarrow> False | Some cmd \<Rightarrow> cmd \<noteq> [])"

definition popen_if :: "world \<Rightarrow> string option \<Rightarrow> sess \<Rightarrow> sess" where
  "popen_if w pre_exec s =
     (if status s \<noteq> Running then s
      else case pre_exec of
             None \<Rightarrow> s
           | Some cmd \<Rightarrow>
               if cmd = [] then s
               else if popen_ok w then emit (Popen cmd) s
               else raise PopenError s)"

definition kill_if :: "string option \<Rightarrow> sess \<Rightarrow> sess" where
  "kill_if pre_exec s =
     (if status s = Running \<and> truthy pre_exec then emit Kill s else s)"

definition finish :: "sess \<Rightarrow> sess" where
  "finish s = (if status s = Running then s\<lparr>status := Finished\<rparr> else s)"

subsection \<open>install_vyos_image_on_node\<close>

text \<open>The body of the \<^verbatim>\<open>with\<close> block, statement by statement
  (gns3utils.py lines 419 to 493, scenario.py lines 353 to 427).\<close>

definition install_dialogue :: "stmt list" where
  "install_dialogue =
    [ReadUntil ''vyos login:'',
     PrintLastLine,

     Write ''vyos\<newline>'',
     Expect [''Password:''] 10,
     PrintText,

     Write ''vyos\<newline>'',
     Expect [''vyos@vyos:~'' @ bs @ ''$''] 10,
     PrintIndex, PrintText,

     Write ''install image\<newline>'',
     Expect [''Would you like to continue'' @ bs @ ''? '' @ bs @ ''(Yes/No'' @ bs @ '')''] 10,
     PrintIndex, PrintText,

     Write ''Yes\<newline>'',
     Expect [''Partition '' @ bs @ ''(Auto/Parted/Skip'' @ bs @ '')''] 10,
     PrintIndex, PrintText,

     Write ''Auto\<newline>'',
     Expect [''Install the image on''] 10,
     PrintIndex, PrintText,

     Write ''\<newline>'',
     Expect [''Continue'' @ bs @ ''? '' @ bs @ ''(Yes/No'' @ bs @ '')''] 10,
     PrintIndex, PrintText,

     Write ''Yes\<newline>'',
     Expect [''How big of a root partition should I create''] 30,
     PrintIndex, PrintText,

     Write ''\<newline>'',
     Expect [''What would you like to name this image''] 30,
     PrintIndex, PrintText,

     Write ''\<newline>'',
     Expect [''Which one should I copy to''] 30,
     PrintIndex, PrintText,

     Write ''\<newline>'',
     Expect [''Enter password for user 'vyos':''] 10,
     PrintIndex, PrintText,

     Write ''vyos\<newline>'',
     Expect [''Retype password for user 'vyos':''] 10,
     PrintIndex, PrintText,

     Write ''vyos\<newline>'',
     Expect [''Which drive should GRUB modify the boot partition on''] 10,
     PrintIndex, PrintText,

     Write ''\<newline>'',
     Expect [''vyos@vyos:~'' @ bs @ ''$''] 30,
     PrintIndex, PrintText,

     Sleep 2,
     Write ''poweroff\<newline>'',
     Expect [''Are you sure you want to poweroff this system''] 10,
     PrintIndex, PrintText,

     Write ''y\<newline>'',
     Sleep 2]"

text \<open>gns3utils.py, with the optional terminal viewer \<^verbatim>\<open>pre_exec\<close>.\<close>

definition install_vyos_image_on_node ::
  "world \<Rightarrow> string \<Rightarrow> string \<Rightarrow> int \<Rightarrow> string option \<Rightarrow> sess" where
  "install_vyos_image_on_node w node_id hostname telnet_port pre_exec =
     (let s1 = popen_if w pre_exec start;
          s2 = with_Telnet w hostname telnet_port install_dialogue s1;
          s3 = kill_if pre_exec s2
      in finish s3)"

text \<open>scenario.py: the same body, no \<^verbatim>\<open>pre_exec\<close> parameter.\<close>

definition scenario_install_vyos_image_on_node ::
  "world \<Rightarrow> string \<Rightarrow> string \<Rightarrow> int \<Rightarrow> sess" where
  "scenario_install_vyos_image_on_node w node_id hostname telnet_port =
     finish (with_Telnet w hostname telnet_port install_dialogue start)"

subsection \<open>md5sum_file and configure_vyos_image_on_node\<close>

text \<open>\<^verbatim>\<open>with open(fname, "rb") as f: data = f.read()\<close>: one read of the whole file.\<close>

definition read_file :: "world \<Rightarrow> string \<Rightarrow> sess \<Rightarrow> bytes option \<times> sess" where
  "read_file w fname s =
     (case file_read w (nfile s) fname of
        None \<Rightarrow> (None, raise FileNotFoundError (s\<lparr>nfile := Suc (nfile s)\<rparr>))
      | Some data \<Rightarrow> (Some data, emit (FileRead fname) (s\<lparr>nfile := Suc (nfile s)\<rparr>)))"

definition md5sum_file :: "world \<Rightarrow> string \<Rightarrow> sess \<Rightarrow> pystr option \<times> sess" where
  "md5sum_file w fname s =
     (case read_file w fname s of
        (None, s') \<Rightarrow> (None, s')
      | (Some data, s') \<Rightarrow> (Some (md5_hexdigest w data), s'))"

text \<open>\<^verbatim>\<open>payload = b"echo '" + config + b"' >> config.b64\n"\<close>; \<open>CHR 0x27\<close> is the
  single quote.\<close>

definition payload :: "bytes \<Rightarrow> bytes" where
  "payload config =
     ''echo '' @ [CHR 0x27] @ config @ [CHR 0x27] @ '' >> config.b64\<newline>''"

text \<open>The body of the \<^verbatim>\<open>with\<close> block
  (gns3utils.py lines 516 to 570, scenario.py lines 438 to 492).\<close>

definition configure_dialogue :: "bytes \<Rightarrow> pystr \<Rightarrow> stmt list" where
  "configure_dialogue config local_checksum =
    [ReadUntil ''vyos login:'',
     PrintLastLine,

     Write ''vyos\<newline>'',
     Expect [''Password:''] 10,
     PrintText,

     Write ''vyos\<newline>'',
     Expect [''vyos@vyos:~'' @ bs @ ''$''] 10,
     PrintIndex, PrintText,

     Write (payload config),
     Expect [''vyos@vyos:~'' @ bs @ ''$''] 10,
     PrintIndex, PrintText,

     Write ''base64 --decode config.b64 > config.sh\<newline>'',
     Expect [''vyos@vyos:~'' @ bs @ ''$''] 10,
     PrintIndex, PrintText,

     Write ''md5sum config.sh\<newline>'',
     Expect [''[0-9a-f]{32}  config.sh''] 5,
     ReturnIfNoMatch (str ''Error generating file MD5 checksum.''),
     CompareChecksum local_checksum,

     Write ''chmod +x config.sh\<newline>'',
     Expect [''vyos@vyos:~'' @ bs @ ''$''] 10,
     PrintIndex, PrintText,

     Write ''./config.sh\<newline>'',
     Expect [''Done''] 60,
     PrintIndex, PrintText,
     Expect [''vyos@vyos:~'' @ bs @ ''$''] 10,
     PrintIndex, PrintText,

     Write ''poweroff\<newline>'',
     Expect [''Are you sure you want to poweroff this system''] 10,
     PrintIndex, PrintText,

     Write ''y\<newline>'',
     Sleep 2]"

text \<open>The function after its first statement: the two reads of the local file, the
  dialogue, and the \<^verbatim>\<open>pre_proc.kill()\<close> of the last line.\<close>

definition configure_session ::
  "world \<Rightarrow> string \<Rightarrow> int \<Rightarrow> string \<Rightarrow> string option \<Rightarrow> sess \<Rightarrow> sess" where
  "configure_session w hostname telnet_port path_script pre_exec s1 =
     (if status s1 \<noteq> Running then s1
      else case md5sum_file w path_script s1 of
        (None, s2) \<Rightarrow> s2
      | (Some local_checksum, s2) \<Rightarrow>
          (case read_file w path_script s2 of
             (None, s3) \<Rightarrow> s3
           | (Some data, s3) \<Rightarrow>
               (let config = b64encode data;
                    s4 = with_Telnet w hostname telnet_port
                           (configure_dialogue config local_checksum) s3;
                    s5 = kill_if pre_exec s4
                in finish s5)))"

text \<open>gns3utils.py, with the optional terminal viewer \<^verbatim>\<open>pre_exec\<close>.\<close>

definition configure_vyos_image_on_node ::
  "world \<Rightarrow> string \<Rightarrow> string \<Rightarrow> int \<Rightarrow> string \<Rightarrow> string option \<Rightarrow> sess" where
  "configure_vyos_image_on_node w node_id hostname telnet_port path_script pre_exec =
     configure_session w hostname telnet_port path_script pre_exec (popen_if w pre_exec start)"

text \<open>scenario.py: the same body, no \<^verbatim>\<open>pre_exec\<close> parameter.\<close>

definition scenario_configure_vyos_image_on_node ::
  "world \<Rightarrow> string \<Rightarrow> string \<Rightarrow> int \<Rightarrow> string \<Rightarrow> sess" where
  "scenario_configure_vyos_image_on_node w node_id hostname telnet_port path_script =
     configure_session w hostname telnet_port path_script None start"

subsection \<open>get_node_telnet_host_port\<close>

text \<open>
  The function sends one GET request for the node (the URL is built from \<^verbatim>\<open>server\<close>,
  \<^verbatim>\<open>project\<close> and \<^verbatim>\<open>node_id\<close>) and reads three keys of the JSON object in the answer.
  The answer of the GNS3 server is the argument \<open>req\<close>: its status code and its JSON
  object, a dictionary from keys to values. \<^verbatim>\<open>raise_for_status\<close> raises for the codes
  400 to 599, a missing key raises KeyError, and the \<^verbatim>\<open>assert\<close> raises AssertionError.
\<close>

datatype json = JString string | JNumber int | JNull

record Server =
  addr :: string
  port :: int
  auth :: bool
  user :: string
  password :: string

datatype http_response = Response nat "string \<rightharpoonup> json"

datatype lookup_error = HTTPError | KeyError | AssertionError

definition get_node_telnet_host_port ::
  "Server \<Rightarrow> string \<Rightarrow> string \<Rightarrow> http_response \<Rightarrow> lookup_error + json \<times> json" where
  "get_node_telnet_host_port server project node_id req =
     (case req of Response status_code body \<Rightarrow>
        if 400 \<le> status_code \<and> status_code < 600 then Inl HTTPError
        else case body ''console_type'' of
          None \<Rightarrow> Inl KeyError
        | Some console_type \<Rightarrow>
            if console_type \<noteq> JString ''telnet'' then Inl AssertionError
            else case body ''console_host'' of
              None \<Rightarrow> Inl KeyError
            | Some console_host \<Rightarrow>
                (let host = (if console_host = JString ''0.0.0.0'' \<or> console_host = JString ''::''
                             then JString (addr server) else console_host)
                 in case body ''console'' of
                      None \<Rightarrow> Inl KeyError
                    | Some console_port \<Rightarrow> Inr (host, console_port)))"

subsection \<open>Observations on sessions and scripts\<close>

text \<open>The bytes written to the connection, in order.\<close>

fun sent :: "event list \<Rightarrow> bytes list" where
  "sent [] = []"
| "sent (Send b # es) = b # sent es"
| "sent (e # es) = sent es"

text \<open>What a script writes when every statement of it runs, and how many reads it makes.\<close>

fun writes :: "stmt list \<Rightarrow> bytes list" where
  "writes [] = []"
| "writes (Write b # cs) = b # writes cs"
| "writes (c # cs) = writes cs"

fun reads :: "stmt list \<Rightarrow> nat" where
  "reads [] = 0"
| "reads (ReadUntil p # cs) = Suc (reads cs)"
| "reads (Expect ps t # cs) = Suc (reads cs)"
| "reads (c # cs) = reads cs"

text \<open>The patterns each read of a script waits for, with its timeout in seconds
  (\<open>None\<close>: the read has no timeout).\<close>

fun awaits :: "stmt list \<Rightarrow> (bytes list \<times> nat option) list" where
  "awaits [] = []"
| "awaits (ReadUntil p # cs) = ([p], None) # awaits cs"
| "awaits (Expect ps t # cs) = (ps, Some t) # awaits cs"
| "awaits (c # cs) = awaits cs"

text \<open>The statements that neither block nor return: write, expect, print, sleep.\<close>

fun plain :: "stmt \<Rightarrow> bool" where
  "plain (Write b) = True"
| "plain (Expect ps t) = True"
| "plain PrintIndex = True"
| "plain PrintText = True"
| "plain (Sleep n) = True"
| "plain c = False"

text \<open>The \<open>k\<close>-th read hands data back (it does not raise EOFError) and the data is
  valid UTF-8, so that printing it does not raise either.\<close>

definition returns :: "world \<Rightarrow> nat \<Rightarrow> bool" where
  "returns w k =
     (case console w k of
        Match t g \<Rightarrow> utf8_decode w t \<noteq> None
      | NoMatch t \<Rightarrow> utf8_decode w t \<noteq> None
      | Eof t \<Rightarrow> t \<noteq> [] \<and> utf8_decode w t \<noteq> None)"

text \<open>The events of the dialogue itself, and those of the lines before the \<^verbatim>\<open>with\<close>
  block.\<close>

fun dialogue_event :: "event \<Rightarrow> bool" where
  "dialogue_event (Send b) = True"
| "dialogue_event (Warn m) = True"
| "dialogue_event (PrintInt i) = True"
| "dialogue_event (PrintStr u) = True"
| "dialogue_event e = False"

fun setup_event :: "event \<Rightarrow> bool" where
  "setup_event (Popen c) = True"
| "setup_event (FileRead p) = True"
| "setup_event e = False"

text \<open>What both functions end with: the \<^verbatim>\<open>with\<close> block, the \<^verbatim>\<open>pre_proc.kill()\<close> and
  the end of the function.\<close>

definition session ::
  "world \<Rightarrow> string \<Rightarrow> int \<Rightarrow> stmt list \<Rightarrow> string option \<Rightarrow> sess \<Rightarrow> sess" where
  "session w h p body pre s0 = finish (kill_if pre (with_Telnet w h p body s0))"

text \<open>The three statements of the digest step of \<open>configure_dialogue\<close>.\<close>

abbreviation digest_step :: "pystr \<Rightarrow> stmt list" where
  "digest_step l \<equiv>
    [Expect [''[0-9a-f]{32}  config.sh''] 5,
     ReturnIfNoMatch (str ''Error generating file MD5 checksum.''),
     CompareChecksum l]"

subsection \<open>Example worlds\<close>

text \<open>
  A console that answers every read with the prompt the script waits for, a decoder that
  is UTF-8 on ASCII bytes and rejects the others, a local file holding \<^verbatim>\<open>echo hi\<close>, and
  a digest function that answers d28b1973427f736bce1d09e6babe5ec8, the MD5 digest of that
  file. \<open>timeout_at i\<close> makes the \<open>i\<close>-th read time out with nothing received.
\<close>

definition ascii_decode :: "bytes \<Rightarrow> pystr option" where
  "ascii_decode b =
     (if list_all (\<lambda>c. (of_char c :: nat) < 128) b then Some (map of_char b) else None)"

definition install_prompts :: "bytes list" where
  "install_prompts =
     [''vyos login:'', ''Password:'', ''vyos@vyos:~$'',
      ''Would you like to continue? (Yes/No)'', ''Partition (Auto/Parted/Skip)'',
      ''Install the image on'', ''Continue? (Yes/No)'',
      ''How big of a root partition should I create'',
      ''What would you like to name this image'', ''Which one should I copy to'',
      ''Enter password for user 'vyos':'', ''Retype password for user 'vyos':'',
      ''Which drive should GRUB modify the boot partition on'', ''vyos@vyos:~$'',
      ''Are you sure you want to poweroff this system'']"

definition configure_prompts :: "bytes \<Rightarrow> bytes list" where
  "configure_prompts digest =
     [''vyos login:'', ''Password:'', ''vyos@vyos:~$'', ''vyos@vyos:~$'', ''vyos@vyos:~$'',
      digest @ ''  config.sh'', ''vyos@vyos:~$'', ''Done'', ''vyos@vyos:~$'',
      ''Are you sure you want to poweroff this system'']"

definition lab_world :: "bytes list \<Rightarrow> world" where
  "lab_world prompts =
     \<lparr>popen_ok = True,
      file_read = (\<lambda>k p. Some ''echo hi''),
      connect_ok = True,
      console = (\<lambda>k. if k < length prompts then Match (prompts ! k) (prompts ! k) else Eof []),
      send_ok = (\<lambda>k. True),
      utf8_decode = ascii_decode,
      md5_hexdigest = (\<lambda>b. str ''d28b1973427f736bce1d09e6babe5ec8'')\<rparr>"

definition timeout_at :: "nat \<Rightarrow> world \<Rightarrow> world" where
  "timeout_at i w = w\<lparr>console := (\<lambda>k. if k = i then NoMatch [] else console w k)\<rparr>"

definition example_server :: Server where
  "example_server = \<lparr>addr = ''192.168.56.10'', port = 3080, auth = False, user = ''admin'',
                      password = ''secret''\<rparr>"

definition example_node :: "string \<rightharpoonup> json" where
  "example_node = [''console_type'' \<mapsto> JString ''telnet'', ''console_host'' \<mapsto> JString ''0.0.0.0'',
                   ''console'' \<mapsto> JNumber 5000]"

definition vnc_node :: "string \<rightharpoonup> json" where
  "vnc_node = [''console_type'' \<mapsto> JString ''vnc'', ''console_host'' \<mapsto> JString ''10.0.0.7'',
               ''console'' \<mapsto> JNumber 5900]"

section \<open>Properties\<close>

subsection \<open>Running a script\<close>

lemma sent_append: "sent (xs @ ys) = sent xs @ sent ys"
  by (induction xs rule: sent.induct) auto

lemma writes_append: "writes (xs @ ys) = writes xs @ writes ys"
  by (induction xs rule: writes.induct) auto

lemma reads_append: "reads (xs @ ys) = reads xs + reads ys"
  by (induction xs rule: reads.induct) auto

lemma run_stopped: "status s \<noteq> Running \<Longrightarrow> run w cs s = s"
  by (cases cs) auto

lemma run_append: "run w (xs @ ys) s = run w ys (run w xs s)"
  by (induction xs arbitrary: s) (auto simp: run_stopped)

lemma exec_events:
  "\<exists>es. trace (exec w c s) = trace s @ es \<and> (\<forall>e \<in> set es. dialogue_event e)"
  by (cases c) (auto simp: emit_def raise_def split: reply.splits option.splits)

lemma run_events:
  "\<exists>es. trace (run w cs s) = trace s @ es \<and> (\<forall>e \<in> set es. dialogue_event e)"
proof (induction cs arbitrary: s)
  case Nil
  then show ?case by simp
next
  case (Cons c cs)
  show ?case
  proof (cases "status s = Running")
    case True
    obtain es1 where e1: "trace (exec w c s) = trace s @ es1" "\<forall>e \<in> set es1. dialogue_event e"
      using exec_events by blast
    obtain es2 where e2: "trace (run w cs (exec w c s)) = trace (exec w c s) @ es2"
        "\<forall>e \<in> set es2. dialogue_event e"
      using Cons.IH by blast
    have "trace (run w (c # cs) s) = trace s @ (es1 @ es2)"
      using True e1 e2 by simp
    moreover have "\<forall>e \<in> set (es1 @ es2). dialogue_event e"
      using e1 e2 by auto
    ultimately show ?thesis by blast
  next
    case False
    then show ?thesis by simp
  qed
qed

text \<open>A statement that leaves the session running.\<close>

lemma exec_running:
  assumes "status s = Running" "status (exec w c s) = Running"
  shows "sent (trace (exec w c s)) = sent (trace s) @ writes [c]"
    and "nread (exec w c s) = nread s + reads [c]"
    and "nsent (exec w c s) = nsent s + length (writes [c])"
  using assms
  by (cases c; auto simp: emit_def raise_def sent_append split: reply.splits option.splits if_splits)+

lemma exec_stops:
  assumes "status s = Running" "status (exec w c s) \<noteq> Running"
  shows "sent (trace (exec w c s)) = sent (trace s)"
  using assms
  by (cases c; auto simp: emit_def raise_def sent_append split: reply.splits option.splits if_splits)

lemma run_running:
  assumes "status (run w cs s) = Running"
  shows "sent (trace (run w cs s)) = sent (trace s) @ writes cs
       \<and> nread (run w cs s) = nread s + reads cs
       \<and> nsent (run w cs s) = nsent s + length (writes cs)"
  using assms
proof (induction cs arbitrary: s)
  case Nil
  then show ?case by simp
next
  case (Cons c cs)
  have r: "status s = Running"
    using Cons.prems by (auto split: if_splits)
  then have step: "run w (c # cs) s = run w cs (exec w c s)" by simp
  have e: "status (exec w c s) = Running"
    using Cons.prems step run_stopped [of "exec w c s" w cs] by (cases "status (exec w c s) = Running") auto
  have w1: "writes (c # cs) = writes [c] @ writes cs" "reads (c # cs) = reads [c] + reads cs"
    using writes_append [of "[c]" cs] reads_append [of "[c]" cs] by simp_all
  show ?case
    using Cons.IH [of "exec w c s"] Cons.prems step exec_running [OF r e] w1
    by simp
qed

lemma run_stops:
  assumes "status s = Running" "status (run w cs s) \<noteq> Running"
  shows "\<exists>j < length cs. sent (trace (run w cs s)) = sent (trace s) @ writes (take j cs)"
  using assms
proof (induction cs arbitrary: s)
  case Nil
  then show ?case by simp
next
  case (Cons c cs)
  show ?case
  proof (cases "status (exec w c s) = Running")
    case True
    then obtain j where j: "j < length cs"
        "sent (trace (run w cs (exec w c s))) = sent (trace (exec w c s)) @ writes (take j cs)"
      using Cons by auto
    have "writes (take (Suc j) (c # cs)) = writes [c] @ writes (take j cs)"
      using writes_append [of "[c]" "take j cs"] by simp
    then have "sent (trace (run w (c # cs) s)) = sent (trace s) @ writes (take (Suc j) (c # cs))"
      using j Cons.prems(1) exec_running(1) [OF Cons.prems(1) True] by simp
    then show ?thesis using j(1) by (intro exI [of _ "Suc j"]) simp
  next
    case False
    then have "sent (trace (run w (c # cs) s)) = sent (trace s) @ writes (take 0 (c # cs))"
      using Cons.prems(1) exec_stops [OF Cons.prems(1) False] run_stopped [OF False] by simp
    then show ?thesis by (intro exI [of _ 0]) simp
  qed
qed

lemma plain_run:
  assumes "\<forall>c \<in> set cs. plain c" "status s = Running"
      and "\<forall>k. nread s \<le> k \<and> k < nread s + reads cs \<longrightarrow> returns w k"
      and "\<forall>k. nsent s \<le> k \<and> k < nsent s + length (writes cs) \<longrightarrow> send_ok w k"
      and "utf8_decode w (out_text s) \<noteq> None"
  shows "status (run w cs s) = Running \<and> utf8_decode w (out_text (run w cs s)) \<noteq> None"
  using assms
proof (induction cs arbitrary: s)
  case Nil
  then show ?case by simp
next
  case (Cons c cs)
  have pc: "plain c" using Cons.prems(1) by simp
  have e: "status (exec w c s) = Running \<and> utf8_decode w (out_text (exec w c s)) \<noteq> None"
  proof (cases c)
    case (Write b)
    then show ?thesis using Cons.prems by (auto simp: emit_def)
  next
    case (Expect ps t)
    then have "returns w (nread s)" using Cons.prems(3) by simp
    then show ?thesis using Expect Cons.prems(2)
      by (auto simp: returns_def raise_def split: reply.splits)
  next
    case PrintText
    then show ?thesis using Cons.prems by (auto simp: emit_def)
  qed (use pc Cons.prems in \<open>auto simp: emit_def\<close>)
  have n: "nread (exec w c s) = nread s + reads [c]" "nsent (exec w c s) = nsent s + length (writes [c])"
    using exec_running [OF Cons.prems(2)] e by simp_all
  have w1: "writes (c # cs) = writes [c] @ writes cs" "reads (c # cs) = reads [c] + reads cs"
    using writes_append [of "[c]" cs] reads_append [of "[c]" cs] by simp_all
  have "status (run w cs (exec w c s)) = Running
      \<and> utf8_decode w (out_text (run w cs (exec w c s))) \<noteq> None"
  proof (rule Cons.IH)
    show "\<forall>c \<in> set cs. plain c" using Cons.prems(1) by simp
    show "status (exec w c s) = Running" using e by simp
    show "\<forall>k. nread (exec w c s) \<le> k \<and> k < nread (exec w c s) + reads cs \<longrightarrow> returns w k"
      using Cons.prems(3) n w1 by simp
    show "\<forall>k. nsent (exec w c s) \<le> k \<and> k < nsent (exec w c s) + length (writes cs) \<longrightarrow> send_ok w k"
      using Cons.prems(4) n w1 by simp
    show "utf8_decode w (out_text (exec w c s)) \<noteq> None" using e by simp
  qed
  then show ?case using Cons.prems(2) by simp
qed

subsection \<open>Base64 round trip\<close>

lemma sextets:
  fixes x y z :: nat
  assumes "x < 256" "y < 256" "z < 256"
  shows "x div 4 < 64" "x mod 4 * 16 + y div 16 < 64" "y mod 16 * 4 + z div 64 < 64" "z mod 64 < 64"
    "x mod 4 * 16 < 64" "y mod 16 * 4 < 64"
proof -
  have a: "x mod 4 < 4" "y mod 16 < 16" by simp_all
  have b: "y div 16 < 16" "z div 64 < 4" "x div 4 < 64" using assms by simp_all
  show "x div 4 < 64" by (rule b)
  show "x mod 4 * 16 + y div 16 < 64" using a b by linarith
  show "y mod 16 * 4 + z div 64 < 64" using a b by linarith
  show "z mod 64 < 64" by simp
  show "x mod 4 * 16 < 64" using a by linarith
  show "y mod 16 * 4 < 64" using a by linarith
qed

lemma octets:
  fixes x y z :: nat
  assumes "x < 256" "y < 256" "z < 256"
  shows "x div 4 * 4 + (x mod 4 * 16 + y div 16) div 16 = x"
    and "(x mod 4 * 16 + y div 16) mod 16 * 16 + (y mod 16 * 4 + z div 64) div 4 = y"
    and "(y mod 16 * 4 + z div 64) mod 4 * 64 + z mod 64 = z"
    and "x div 4 * 4 + (x mod 4 * 16) div 16 = x"
    and "(x mod 4 * 16 + y div 16) mod 16 * 16 + (y mod 16 * 4) div 4 = y"
proof -
  have y16: "y div 16 div 16 = 0" "y div 16 mod 16 = y div 16" using assms by (simp_all add: div_mult2_eq [symmetric])
  have z64: "z div 64 div 4 = 0" "z div 64 mod 4 = z div 64" using assms by (simp_all add: div_mult2_eq [symmetric])
  show "x div 4 * 4 + (x mod 4 * 16 + y div 16) div 16 = x"
    using y16 by simp
  show "(x mod 4 * 16 + y div 16) mod 16 * 16 + (y mod 16 * 4 + z div 64) div 4 = y"
    using y16 z64 by simp
  show "(y mod 16 * 4 + z div 64) mod 4 * 64 + z mod 64 = z"
    using z64 by simp
  show "x div 4 * 4 + (x mod 4 * 16) div 16 = x" by simp
  show "(x mod 4 * 16 + y div 16) mod 16 * 16 + (y mod 16 * 4) div 4 = y"
    using y16 by simp
qed

lemma b64_index_char_all: "\<forall>i \<in> set [0..<64]. b64_index (b64_char i) = Some i"
  by code_simp

lemma b64_index_char: "i < 64 \<Longrightarrow> b64_index (b64_char i) = Some i"
  using b64_index_char_all by simp

lemma b64_char_plain_all:
  "\<forall>i \<in> set [0..<64]. b64_char i \<noteq> CHR ''='' \<and> b64_char i \<noteq> CHR 0x0A \<and> b64_char i \<noteq> CHR 0x27"
  by code_simp

lemma b64_char_plain:
  "b64_char i \<noteq> CHR ''='' \<and> b64_char i \<noteq> CHR 0x0A \<and> b64_char i \<noteq> CHR 0x27"
proof -
  have "b64_char i = b64_char (i mod 64)" by (simp add: b64_char_def)
  moreover have "i mod 64 \<in> set [0..<64]" by simp
  ultimately show ?thesis using b64_char_plain_all by metis
qed

lemma b64encode_chars:
  "c \<in> set (b64encode xs) \<Longrightarrow> c \<noteq> CHR 0x0A \<and> c \<noteq> CHR 0x27"
  by (induction xs rule: b64encode.induct) (auto simp: Let_def b64_char_plain)

lemma b64encode_no_newline: "filter (\<lambda>c. c \<noteq> CHR 0x0A) (b64encode xs) = b64encode xs"
  using b64encode_chars by (simp add: filter_id_conv)

lemma b64decode_quads_encode: "b64decode_quads (b64encode xs) = Some xs"
proof (induction xs rule: b64encode.induct)
  case 1
  show ?case by simp
next
  case (2 a)
  have lt: "(of_char a :: nat) < 256" by simp
  show ?case
    using sextets(1,5) [OF lt lt lt] octets(4) [OF lt lt lt]
    by (simp add: Let_def b64_index_char)
next
  case (3 a b)
  have la: "(of_char a :: nat) < 256" and lb: "(of_char b :: nat) < 256" by simp_all
  show ?case
    using sextets(1,2,6) [OF la lb lb] octets(1,5) [OF la lb lb]
    by (simp add: Let_def b64_index_char b64_char_plain)
next
  case (4 a b c rest)
  have la: "(of_char a :: nat) < 256" and lb: "(of_char b :: nat) < 256"
    and lc: "(of_char c :: nat) < 256" by simp_all
  show ?case
    using 4 sextets(1-4) [OF la lb lc] octets(1-3) [OF la lb lc]
    by (simp add: Let_def b64_index_char b64_char_plain)
qed

lemma b64decode_encode: "b64decode (b64encode xs) = Some xs"
  by (simp add: b64decode_def b64encode_no_newline b64decode_quads_encode)

lemma b64decode_encode_line: "b64decode (b64encode xs @ [CHR 0x0A]) = Some xs"
  by (simp add: b64decode_def b64encode_no_newline b64decode_quads_encode)

subsection \<open>The shape of a session\<close>

lemma sent_setup: "\<forall>e \<in> set es. setup_event e \<Longrightarrow> sent es = []"
  by (induction es rule: sent.induct) auto

lemma scenario_install_eq:
  "scenario_install_vyos_image_on_node w node_id hostname telnet_port =
   install_vyos_image_on_node w node_id hostname telnet_port None"
  by (simp add: scenario_install_vyos_image_on_node_def install_vyos_image_on_node_def
      popen_if_def kill_if_def truthy_def start_def)

lemma scenario_configure_eq:
  "scenario_configure_vyos_image_on_node w node_id hostname telnet_port path_script =
   configure_vyos_image_on_node w node_id hostname telnet_port path_script None"
  by (simp add: scenario_configure_vyos_image_on_node_def configure_vyos_image_on_node_def
      popen_if_def start_def)

lemma session_refused:
  "status s0 = Running \<Longrightarrow> \<not> connect_ok w \<Longrightarrow>
   session w h p body pre s0 = raise ConnectionRefusedError s0"
  by (simp add: session_def with_Telnet_def kill_if_def finish_def raise_def)

lemma session_unfold:
  assumes "status s0 = Running" "connect_ok w"
  shows "session w h p body pre s0 =
     (let d = run w body (emit (Connect h p) s0) in
      if status d = Blocked then d
      else if status d = Running
        then (if truthy pre then emit Kill (emit Close d) else emit Close d)\<lparr>status := Finished\<rparr>
      else emit Close d)"
  using assms
  by (simp add: session_def with_Telnet_def kill_if_def finish_def emit_def Let_def)

lemma session_dialogue:
  "\<exists>es. trace (run w body (emit (Connect h p) s0)) = trace s0 @ Connect h p # es
     \<and> (\<forall>e \<in> set es. dialogue_event e)"
  using run_events [of w body "emit (Connect h p) s0"] by (auto simp: emit_def)

lemma install_as_session:
  "install_vyos_image_on_node w node_id h p pre =
     session w h p install_dialogue pre (popen_if w pre start)"
  by (simp add: install_vyos_image_on_node_def session_def)

lemma session_stopped: "status s0 \<noteq> Running \<Longrightarrow> session w h p body pre s0 = s0"
  by (simp add: session_def with_Telnet_def kill_if_def finish_def)

lemma popen_if_start:
  "(status (popen_if w pre start) = Raised PopenError \<and> trace (popen_if w pre start) = [])
   \<or> (status (popen_if w pre start) = Running
       \<and> (\<forall>e \<in> set (trace (popen_if w pre start)). setup_event e)
       \<and> nfile (popen_if w pre start) = 0 \<and> nread (popen_if w pre start) = 0
       \<and> nsent (popen_if w pre start) = 0)"
  by (auto simp: popen_if_def start_def emit_def raise_def split: option.splits)

lemma configure_as_session:
  assumes "status s1 = Running"
  shows "configure_session w h p path pre s1 =
     (case file_read w (nfile s1) path of
        None \<Rightarrow> raise FileNotFoundError (s1\<lparr>nfile := Suc (nfile s1)\<rparr>)
      | Some c0 \<Rightarrow>
         (case file_read w (Suc (nfile s1)) path of
            None \<Rightarrow> raise FileNotFoundError
                      (emit (FileRead path) (s1\<lparr>nfile := Suc (Suc (nfile s1))\<rparr>))
          | Some c1 \<Rightarrow>
              session w h p (configure_dialogue (b64encode c1) (md5_hexdigest w c0)) pre
                (emit (FileRead path) (emit (FileRead path) (s1\<lparr>nfile := Suc (Suc (nfile s1))\<rparr>)))))"
  using assms
  by (simp add: configure_session_def md5sum_file_def read_file_def session_def emit_def raise_def
      Let_def split: option.splits)

lemma closed_once_shape:
  assumes "Close \<notin> set xs" "k = [] \<or> k = [Kill]"
  shows "count_list (xs @ Close # k) Close = 1
       \<and> sent (dropWhile (\<lambda>e. e \<noteq> Close) (xs @ Close # k)) = []"
proof -
  have "count_list xs Close = 0" using assms(1) by (simp add: count_list_0_iff)
  moreover have "dropWhile (\<lambda>e. e \<noteq> Close) xs = []"
    using assms(1) by auto
  then have "dropWhile (\<lambda>e. e \<noteq> Close) (xs @ Close # k) = Close # k"
    by (simp add: dropWhile_append3)
  ultimately show ?thesis using assms(2) by auto
qed

lemma session_closed_once:
  assumes r: "status s0 = Running" and su: "\<forall>e \<in> set (trace s0). setup_event e"
    and c: "Connect h p \<in> set (trace (session w h p body pre s0))"
    and nb: "status (session w h p body pre s0) \<noteq> Blocked"
  shows "count_list (trace (session w h p body pre s0)) Close = 1
       \<and> sent (dropWhile (\<lambda>e. e \<noteq> Close) (trace (session w h p body pre s0))) = []"
proof -
  have ok: "connect_ok w"
  proof (rule ccontr)
    assume "\<not> connect_ok w"
    then have "trace (session w h p body pre s0) = trace s0"
      using session_refused [OF r] by (simp add: raise_def)
    then show False using c su by auto
  qed
  define d where "d = run w body (emit (Connect h p) s0)"
  obtain es where es: "trace d = trace s0 @ Connect h p # es" "\<forall>e \<in> set es. dialogue_event e"
    using session_dialogue unfolding d_def by blast
  have nbd: "status d \<noteq> Blocked"
    using nb session_unfold [OF r ok, of h p body pre] unfolding d_def Let_def
    by (auto split: if_splits)
  obtain k where k: "k = [] \<or> k = [Kill]"
      "trace (session w h p body pre s0) = (trace s0 @ Connect h p # es) @ Close # k"
    using session_unfold [OF r ok, of h p body pre] nbd es(1) unfolding d_def Let_def
    by (cases "status (run w body (emit (Connect h p) s0)) = Running"; cases "truthy pre")
      (auto simp: emit_def)
  have "Close \<notin> set (trace s0 @ Connect h p # es)"
    using su es(2) by auto
  then show ?thesis using closed_once_shape k by metis
qed

lemma install_cases:
  assumes "s = install_vyos_image_on_node w n h p pre"
  obtains (setup_failed) "\<forall>e \<in> set (trace s). setup_event e" "status s = Raised PopenError"
      "truthy pre" "\<not> popen_ok w"
  | (session) s1 where "status s1 = Running" "\<forall>e \<in> set (trace s1). setup_event e"
      "nread s1 = 0" "nsent s1 = 0" "s = session w h p install_dialogue pre s1"
      "truthy pre \<longrightarrow> popen_ok w"
proof -
  let ?s1 = "popen_if w pre start"
  show thesis
  proof (cases "status ?s1 = Running")
    case True
    have "truthy pre \<longrightarrow> popen_ok w"
      using True by (auto simp: popen_if_def truthy_def start_def raise_def split: option.splits if_splits)
    then show ?thesis
      using True popen_if_start [of w pre] assms install_as_session [of w n h p pre]
      by (intro session [of ?s1]) auto
  next
    case False
    then have "s = ?s1" using assms install_as_session [of w n h p pre] session_stopped by simp
    moreover have "truthy pre \<and> \<not> popen_ok w"
      using False by (auto simp: popen_if_def truthy_def start_def emit_def split: option.splits if_splits)
    ultimately show ?thesis using False popen_if_start [of w pre] by (intro setup_failed) auto
  qed
qed

lemma configure_cases:
  assumes "s = configure_vyos_image_on_node w n h p path pre"
  obtains (setup_failed) "\<forall>e \<in> set (trace s). setup_event e" "\<exists>x. status s = Raised x"
      "(truthy pre \<and> \<not> popen_ok w) \<or> file_read w 0 path = None \<or> file_read w 1 path = None"
  | (session) c0 c1 s3 where "file_read w 0 path = Some c0" "file_read w 1 path = Some c1"
      "status s3 = Running" "\<forall>e \<in> set (trace s3). setup_event e"
      "nread s3 = 0" "nsent s3 = 0"
      "s = session w h p (configure_dialogue (b64encode c1) (md5_hexdigest w c0)) pre s3"
      "count_list (trace s3) (FileRead path) = 2"
      "truthy pre \<longrightarrow> popen_ok w"
proof -
  let ?s1 = "popen_if w pre start"
  have s: "s = configure_session w h p path pre ?s1"
    using assms by (simp add: configure_vyos_image_on_node_def)
  show thesis
  proof (cases "status ?s1 = Running")
    case False
    then have "s = ?s1" using s by (simp add: configure_session_def)
    moreover have "truthy pre \<and> \<not> popen_ok w"
      using False by (auto simp: popen_if_def truthy_def start_def emit_def split: option.splits if_splits)
    ultimately show ?thesis using False popen_if_start [of w pre] by (intro setup_failed) auto
  next
    case True
    then have s1: "\<forall>e \<in> set (trace ?s1). setup_event e" "nfile ?s1 = 0" "nread ?s1 = 0"
        "nsent ?s1 = 0" "count_list (trace ?s1) (FileRead path) = 0"
      by (auto simp: popen_if_def start_def emit_def raise_def split: option.splits if_splits)
    have po: "truthy pre \<longrightarrow> popen_ok w"
      using True by (auto simp: popen_if_def truthy_def start_def raise_def split: option.splits if_splits)
    note u = configure_as_session [OF True, of w h p path pre]
    show ?thesis
    proof (cases "file_read w 0 path")
      case None
      then have "s = raise FileNotFoundError (?s1\<lparr>nfile := Suc (nfile ?s1)\<rparr>)"
        using s u s1(2) by simp
      then show ?thesis using s1(1) None by (intro setup_failed) (auto simp: raise_def)
    next
      case c0: (Some c0)
      show ?thesis
      proof (cases "file_read w 1 path")
        case None
        then have "s = raise FileNotFoundError
             (emit (FileRead path) (?s1\<lparr>nfile := Suc (Suc (nfile ?s1))\<rparr>))"
          using s u s1(2) c0 by simp
        then show ?thesis using s1(1) None by (intro setup_failed) (auto simp: raise_def emit_def)
      next
        case c1: (Some c1)
        let ?s3 = "emit (FileRead path) (emit (FileRead path) (?s1\<lparr>nfile := Suc (Suc (nfile ?s1))\<rparr>))"
        have "s = session w h p (configure_dialogue (b64encode c1) (md5_hexdigest w c0)) pre ?s3"
          using s u s1(2) c0 c1 by simp
        moreover have "status ?s3 = Running" "\<forall>e \<in> set (trace ?s3). setup_event e"
          "nread ?s3 = 0" "nsent ?s3 = 0" "count_list (trace ?s3) (FileRead path) = 2"
          using True s1 by (auto simp: emit_def)
        ultimately show ?thesis using c0 c1 po by (intro session [of c0 c1 ?s3]) auto
      qed
    qed
  qed
qed

text \<open>
  C3. Every session of either procedure (the connection was opened) that comes to an end,
  at the last line, through the \<^verbatim>\<open>return\<close> of the digest step or with an exception,
  closes the connection exactly once, and nothing is written after the close.
\<close>

theorem transport_closed_exactly_once:
  assumes "s = install_vyos_image_on_node w node_id hostname telnet_port pre_exec
         \<or> s = scenario_install_vyos_image_on_node w node_id hostname telnet_port
         \<or> s = configure_vyos_image_on_node w node_id hostname telnet_port path_script pre_exec
         \<or> s = scenario_configure_vyos_image_on_node w node_id hostname telnet_port path_script"
      and "Connect hostname telnet_port \<in> set (trace s)"
      and "status s \<noteq> Blocked"
  shows "count_list (trace s) Close = 1
       \<and> sent (dropWhile (\<lambda>e. e \<noteq> Close) (trace s)) = []"
proof -
  consider (inst) pre where "s = install_vyos_image_on_node w node_id hostname telnet_port pre"
    | (conf) pre where "s = configure_vyos_image_on_node w node_id hostname telnet_port path_script pre"
    using assms(1) scenario_install_eq scenario_configure_eq by metis
  then show ?thesis
  proof cases
    case inst
    then show ?thesis
    proof (cases rule: install_cases)
      case setup_failed
      then show ?thesis using assms(2) by auto
    next
      case (session s1)
      then show ?thesis using session_closed_once assms(2,3) by metis
    qed
  next
    case conf
    then show ?thesis
    proof (cases rule: configure_cases)
      case setup_failed
      then show ?thesis using assms(2) by auto
    next
      case (session c0 c1 s3)
      then show ?thesis using session_closed_once assms(2,3) by metis
    qed
  qed
qed

lemma session_split:
  assumes r: "status s0 = Running" and su: "\<forall>e \<in> set (trace s0). setup_event e"
    and c: "Connect h p \<in> set (trace (session w h p body pre s0))"
  shows "takeWhile (\<lambda>e. e \<noteq> Connect h p) (trace (session w h p body pre s0)) = trace s0
       \<and> (\<forall>q. FileRead q \<notin> set (dropWhile (\<lambda>e. e \<noteq> Connect h p) (trace (session w h p body pre s0))))"
proof -
  have ok: "connect_ok w"
  proof (rule ccontr)
    assume "\<not> connect_ok w"
    then have "trace (session w h p body pre s0) = trace s0"
      using session_refused [OF r] by (simp add: raise_def)
    then show False using c su by auto
  qed
  define d where "d = run w body (emit (Connect h p) s0)"
  obtain es where es: "trace d = trace s0 @ Connect h p # es" "\<forall>e \<in> set es. dialogue_event e"
    using session_dialogue unfolding d_def by blast
  obtain k where k: "k = [] \<or> k = [Close] \<or> k = [Close, Kill]"
      "trace (session w h p body pre s0) = trace s0 @ Connect h p # (es @ k)"
    using session_unfold [OF r ok, of h p body pre] es(1) unfolding d_def Let_def
    by (cases "status (run w body (emit (Connect h p) s0)) = Running"; cases "truthy pre";
        cases "status (run w body (emit (Connect h p) s0)) = Blocked")
      (auto simp: emit_def)
  have n: "\<forall>e \<in> set (trace s0). e \<noteq> Connect h p" using su by auto
  have t: "takeWhile (\<lambda>e. e \<noteq> Connect h p) (trace s0 @ Connect h p # (es @ k)) = trace s0"
    using n by (simp add: takeWhile_append2)
  have "dropWhile (\<lambda>e. e \<noteq> Connect h p) (trace s0) = []" using n by auto
  then have d: "dropWhile (\<lambda>e. e \<noteq> Connect h p) (trace s0 @ Connect h p # (es @ k))
      = Connect h p # (es @ k)"
    by (simp add: dropWhile_append3)
  have "\<forall>q. FileRead q \<notin> set (Connect h p # (es @ k))"
    using es(2) k(1) by auto
  then show ?thesis using t d k(2) by simp
qed

text \<open>
  C9, amended. In every configuration session the local file is read twice, each time in
  full, once for the digest and once for the encoding; both reads are complete before the
  connection to the console is opened, and the file is not read after that.
\<close>

theorem file_read_twice_before_session:
  assumes "s = configure_vyos_image_on_node w node_id hostname telnet_port path_script pre_exec
         \<or> s = scenario_configure_vyos_image_on_node w node_id hostname telnet_port path_script"
      and "Connect hostname telnet_port \<in> set (trace s)"
  shows "count_list (takeWhile (\<lambda>e. e \<noteq> Connect hostname telnet_port) (trace s))
           (FileRead path_script) = 2
       \<and> (\<forall>q. FileRead q \<notin> set (dropWhile (\<lambda>e. e \<noteq> Connect hostname telnet_port) (trace s)))"
proof -
  obtain pre where "s = configure_vyos_image_on_node w node_id hostname telnet_port path_script pre"
    using assms(1) scenario_configure_eq by metis
  then show ?thesis
  proof (cases rule: configure_cases)
    case setup_failed
    then show ?thesis using assms(2) by auto
  next
    case (session c0 c1 s3)
    then show ?thesis using session_split [of s3 hostname telnet_port w] assms(2) by metis
  qed
qed

subsection \<open>The installation dialogue\<close>

lemma session_result:
  fixes w h p body pre s0
  defines "d \<equiv> run w body (emit (Connect h p) s0)"
  assumes r: "status s0 = Running" and su: "\<forall>e \<in> set (trace s0). setup_event e"
    and ok: "connect_ok w"
  shows "sent (trace (session w h p body pre s0)) = sent (trace d)"
    and "status d = Running \<Longrightarrow> status (session w h p body pre s0) = Finished"
    and "status d \<noteq> Running \<Longrightarrow> status (session w h p body pre s0) = status d"
    and "Warn m \<in> set (trace (session w h p body pre s0)) \<longleftrightarrow> Warn m \<in> set (trace d)"
    and "Send b \<in> set (trace (session w h p body pre s0)) \<longleftrightarrow> Send b \<in> set (trace d)"
  using session_unfold [OF r ok, of h p body pre] unfolding d_def Let_def
  by (auto simp: emit_def sent_append split: if_splits)

lemma session_no_send:
  assumes r: "status s0 = Running" and su: "\<forall>e \<in> set (trace s0). setup_event e"
    and c: "Send b \<in> set (trace (session w h p body pre s0))"
  shows "connect_ok w"
proof (rule ccontr)
  assume "\<not> connect_ok w"
  then have "trace (session w h p body pre s0) = trace s0"
    using session_refused [OF r] by (simp add: raise_def)
  then show False using c su by auto
qed

lemma sent_mem: "b \<in> set (sent es) \<longleftrightarrow> Send b \<in> set es"
  by (induction es rule: sent.induct) auto

lemma banner_step:
  fixes w s pat
  defines "a \<equiv> run w [ReadUntil pat, PrintLastLine] s"
  assumes "status s = Running" "returns w (nread s)" "\<forall>t. console w (nread s) \<noteq> NoMatch t"
  shows "status a = Running \<and> nread a = Suc (nread s) \<and> nsent a = nsent s
       \<and> utf8_decode w (out_text a) \<noteq> None"
  using assms(2-4) unfolding a_def
  by (cases "console w (nread s)") (auto simp: returns_def emit_def raise_def)

lemma write_expect_step:
  fixes w s x ps t
  defines "a \<equiv> run w [Write x, Expect ps t] s"
  assumes "status s = Running" "send_ok w (nsent s)" "returns w (nread s)"
  shows "status a = Running \<and> nread a = Suc (nread s) \<and> nsent a = Suc (nsent s)
       \<and> utf8_decode w (out_text a) \<noteq> None"
  using assms(2-4) unfolding a_def
  by (cases "console w (nread s)") (auto simp: returns_def emit_def raise_def)

lemma install_dialogue_split:
  "install_dialogue = [ReadUntil ''vyos login:'', PrintLastLine] @ drop 2 install_dialogue"
  "\<forall>c \<in> set (drop 2 install_dialogue). plain c"
  "reads (drop 2 install_dialogue) = 14"
  "length (writes (drop 2 install_dialogue)) = 15"
  by (simp_all add: install_dialogue_def)

lemma install_dialogue_runs:
  assumes "status s = Running" "nread s = 0" "nsent s = 0"
    and "\<forall>k<15. returns w k" "\<forall>t. console w 0 \<noteq> NoMatch t" "\<forall>k<15. send_ok w k"
  shows "status (run w install_dialogue s) = Running"
proof -
  define a where "a = run w [ReadUntil ''vyos login:'', PrintLastLine] s"
  have a: "status a = Running \<and> nread a = Suc (nread s) \<and> nsent a = nsent s
       \<and> utf8_decode w (out_text a) \<noteq> None"
    unfolding a_def using assms by (intro banner_step) auto
  have "status (run w (drop 2 install_dialogue) a) = Running
      \<and> utf8_decode w (out_text (run w (drop 2 install_dialogue) a)) \<noteq> None"
  proof (rule plain_run)
    show "\<forall>c \<in> set (drop 2 install_dialogue). plain c" by (rule install_dialogue_split(2))
    show "status a = Running" using a by simp
    show "\<forall>k. nread a \<le> k \<and> k < nread a + reads (drop 2 install_dialogue) \<longrightarrow> returns w k"
      using a assms(2,4) by (simp add: install_dialogue_split(3))
    show "\<forall>k. nsent a \<le> k \<and> k < nsent a + length (writes (drop 2 install_dialogue))
        \<longrightarrow> send_ok w k"
      using a assms(3,6) by (simp add: install_dialogue_split(4))
    show "utf8_decode w (out_text a) \<noteq> None" using a by simp
  qed
  moreover have "run w install_dialogue s = run w (drop 2 install_dialogue) a"
    unfolding a_def using run_append [of w "[ReadUntil ''vyos login:'', PrintLastLine]"
        "drop 2 install_dialogue" s] install_dialogue_split(1) by metis
  ultimately show ?thesis by simp
qed

lemma install_completes:
  assumes s: "s = install_vyos_image_on_node w n h p pre"
    and "connect_ok w" "truthy pre \<longrightarrow> popen_ok w"
    and "\<forall>k<15. returns w k" "\<forall>t. console w 0 \<noteq> NoMatch t" "\<forall>k<15. send_ok w k"
  shows "status s = Finished \<and> sent (trace s) = writes install_dialogue"
  using s
  proof (cases rule: install_cases)
    case setup_failed
    then show ?thesis using assms(3) by simp
  next
    case (session s1)
    define d where "d = run w install_dialogue (emit (Connect h p) s1)"
    have "status d = Running"
      unfolding d_def using session assms by (intro install_dialogue_runs) (auto simp: emit_def)
    moreover from this have "sent (trace d) = writes install_dialogue"
      using run_running [of w install_dialogue "emit (Connect h p) s1"] session(2) sent_setup
      unfolding d_def by (simp add: emit_def sent_append)
    ultimately show ?thesis
      using session_result(1,2) [OF session(1,2) assms(2), where h = h and p = p
          and body = install_dialogue and pre = pre] session(5)
      unfolding d_def by simp
  qed

lemma run_never_finished:
  "status s \<noteq> Finished \<Longrightarrow> status (run w cs s) \<noteq> Finished"
proof (induction cs arbitrary: s)
  case Nil
  then show ?case by simp
next
  case (Cons c cs)
  have "status s = Running \<Longrightarrow> status (exec w c s) \<noteq> Finished"
    by (cases c) (auto simp: emit_def raise_def split: reply.splits option.splits)
  then show ?case using Cons by auto
qed

lemma session_kill:
  assumes r: "status s0 = Running" and su: "\<forall>e \<in> set (trace s0). setup_event e"
  shows "Kill \<in> set (trace (session w h p body pre s0))
     \<longleftrightarrow> truthy pre \<and> status (session w h p body pre s0) = Finished"
proof (cases "connect_ok w")
  case False
  then show ?thesis using session_refused [OF r False, of h p body pre] su
    by (auto simp: raise_def)
next
  case True
  obtain es where es: "trace (run w body (emit (Connect h p) s0)) = trace s0 @ Connect h p # es"
      "\<forall>e \<in> set es. dialogue_event e"
    using session_dialogue by blast
  have "Kill \<notin> set (trace (run w body (emit (Connect h p) s0)))"
    using es su by auto
  moreover have "status (run w body (emit (Connect h p) s0)) \<noteq> Finished"
    using r by (intro run_never_finished) (simp add: emit_def)
  ultimately show ?thesis
    using session_unfold [OF r True, of h p body pre] unfolding Let_def
    by (auto simp: emit_def split: if_splits)
qed

lemma viewer_killed_only_at_the_end:
  assumes "s = install_vyos_image_on_node w node_id hostname telnet_port pre_exec
         \<or> s = configure_vyos_image_on_node w node_id hostname telnet_port path_script pre_exec"
  shows "Kill \<in> set (trace s) \<longleftrightarrow> truthy pre_exec \<and> status s = Finished"
  using assms
proof
  assume "s = install_vyos_image_on_node w node_id hostname telnet_port pre_exec"
  then show ?thesis
  proof (cases rule: install_cases)
    case setup_failed
    then show ?thesis by auto
  next
    case (session s1)
    then show ?thesis using session_kill by metis
  qed
next
  assume "s = configure_vyos_image_on_node w node_id hostname telnet_port path_script pre_exec"
  then show ?thesis
  proof (cases rule: configure_cases)
    case setup_failed
    then show ?thesis by auto
  next
    case (session c0 c1 s3)
    then show ?thesis using session_kill by metis
  qed
qed

subsection \<open>The configuration dialogue\<close>

lemma writes_take_subset: "set (writes (take j cs)) \<subseteq> set (writes cs)"
proof -
  have "writes cs = writes (take j cs) @ writes (drop j cs)"
    using writes_append [of "take j cs" "drop j cs"] by simp
  then show ?thesis by auto
qed

lemma writes_take_butlast:
  assumes "j < length cs"
  shows "set (writes (take j cs)) \<subseteq> set (writes (butlast cs))"
proof -
  have "take j cs = take j (butlast cs)" using assms by (simp add: take_butlast)
  then show ?thesis using writes_take_subset [of j "butlast cs"] by simp
qed

lemma writes_take_nth:
  assumes "i < length (writes (take j cs))"
  shows "writes (take j cs) ! i = writes cs ! i"
proof -
  have "writes cs = writes (take j cs) @ writes (drop j cs)"
    using writes_append [of "take j cs" "drop j cs"] by simp
  then show ?thesis using assms by (metis nth_append)
qed

lemma plain_not_returned:
  "\<forall>c \<in> set cs. plain c \<Longrightarrow> status s \<noteq> Returned \<Longrightarrow> status (run w cs s) \<noteq> Returned"
proof (induction cs arbitrary: s)
  case Nil
  then show ?case by simp
next
  case (Cons c cs)
  have "status s = Running \<Longrightarrow> status (exec w c s) \<noteq> Returned"
    using Cons.prems(1)
    by (cases c) (auto simp: emit_def raise_def split: reply.splits option.splits)
  then show ?case using Cons by auto
qed

lemma run_keeps_events: "e \<in> set (trace s) \<Longrightarrow> e \<in> set (trace (run w cs s))"
  using run_events [of w cs s] by auto

lemma configure_dialogue_split:
  "configure_dialogue c l =
     take 18 (configure_dialogue c l) @ digest_step l @ drop 21 (configure_dialogue c l)"
  "take 18 (configure_dialogue c l) =
     [ReadUntil ''vyos login:'', PrintLastLine] @ drop 2 (take 18 (configure_dialogue c l))"
  "drop 21 (configure_dialogue c l) =
     [Write ''chmod +x config.sh\<newline>'', Expect [''vyos@vyos:~'' @ bs @ ''$''] 10]
       @ drop 23 (configure_dialogue c l)"
  by (simp_all add: configure_dialogue_def)

lemma configure_dialogue_parts:
  "\<forall>x \<in> set (drop 2 (take 18 (configure_dialogue c l))). plain x"
  "reads (drop 2 (take 18 (configure_dialogue c l))) = 4"
  "length (writes (drop 2 (take 18 (configure_dialogue c l)))) = 5"
  "length (take 18 (configure_dialogue c l)) = 18"
  "reads (take 18 (configure_dialogue c l)) = 5"
  "writes (take 18 (configure_dialogue c l)) =
     [''vyos\<newline>'', ''vyos\<newline>'', payload c,
      ''base64 --decode config.b64 > config.sh\<newline>'', ''md5sum config.sh\<newline>'']"
  "writes (butlast (take 18 (configure_dialogue c l))) =
     [''vyos\<newline>'', ''vyos\<newline>'', payload c,
      ''base64 --decode config.b64 > config.sh\<newline>'']"
  "\<forall>x \<in> set (drop 21 (configure_dialogue c l)). plain x"
  "\<forall>x \<in> set (drop 23 (configure_dialogue c l)). plain x"
  "reads (drop 23 (configure_dialogue c l)) = 3"
  "length (writes (drop 23 (configure_dialogue c l))) = 3"
  "writes (drop 21 (configure_dialogue c l)) =
     [''chmod +x config.sh\<newline>'', ''./config.sh\<newline>'', ''poweroff\<newline>'', ''y\<newline>'']"
  "writes (digest_step l) = []"
  by (simp_all add: configure_dialogue_def)

lemma configure_writes:
  "writes (configure_dialogue c l) =
     [''vyos\<newline>'', ''vyos\<newline>'', payload c,
      ''base64 --decode config.b64 > config.sh\<newline>'', ''md5sum config.sh\<newline>'',
      ''chmod +x config.sh\<newline>'', ''./config.sh\<newline>'', ''poweroff\<newline>'', ''y\<newline>'']"
  by (simp add: configure_dialogue_def)

text \<open>The state in which the digest step starts, when the md5sum command has been sent.\<close>

lemma prefix_reached:
  assumes r: "status s = Running" "nread s = 0" "nsent s = 0" "sent (trace s) = []"
    and m: "Send ''md5sum config.sh\<newline>'' \<in> set (trace (run w (configure_dialogue c l) s))"
  defines "a \<equiv> run w (take 18 (configure_dialogue c l)) s"
  shows "status a = Running \<and> nread a = 5 \<and> nsent a = 5
       \<and> sent (trace a) = writes (take 18 (configure_dialogue c l))"
proof -
  have whole: "run w (configure_dialogue c l) s
      = run w (digest_step l @ drop 21 (configure_dialogue c l)) a"
    unfolding a_def
    using run_append [of w "take 18 (configure_dialogue c l)"
        "digest_step l @ drop 21 (configure_dialogue c l)" s] configure_dialogue_split(1) [of c l]
    by simp
  have ra: "status a = Running"
  proof (rule ccontr)
    assume n: "status a \<noteq> Running"
    then obtain j where j: "j < length (take 18 (configure_dialogue c l))"
        "sent (trace a) = sent (trace s) @ writes (take j (take 18 (configure_dialogue c l)))"
      using run_stops [OF r(1), of w "take 18 (configure_dialogue c l)"] unfolding a_def by blast
    have "run w (configure_dialogue c l) s = a" using whole n run_stopped by simp
    then have "''md5sum config.sh\<newline>'' \<in> set (sent (trace a))" using m sent_mem by simp
    then have "''md5sum config.sh\<newline>'' \<in> set (writes (butlast (take 18 (configure_dialogue c l))))"
      using j r(4) writes_take_butlast [OF j(1)] by auto
    then show False by (simp add: configure_dialogue_parts(7) payload_def)
  qed
  then show ?thesis
    using run_running [of w "take 18 (configure_dialogue c l)" s] r
    unfolding a_def by (simp add: configure_dialogue_parts(5,6))
qed

lemma prefix_runs:
  assumes r: "status s = Running" "nread s = 0" "nsent s = 0"
    and g: "\<forall>k<5. returns w k" "\<forall>t. console w 0 \<noteq> NoMatch t" "\<forall>k<5. send_ok w k"
  shows "status (run w (take 18 (configure_dialogue c l)) s) = Running"
proof -
  let ?P = "take 18 (configure_dialogue c l)"
  define a where "a = run w [ReadUntil ''vyos login:'', PrintLastLine] s"
  have a: "status a = Running \<and> nread a = Suc (nread s) \<and> nsent a = nsent s
       \<and> utf8_decode w (out_text a) \<noteq> None"
    unfolding a_def using r g by (intro banner_step) auto
  have "status (run w (drop 2 ?P) a) = Running
      \<and> utf8_decode w (out_text (run w (drop 2 ?P) a)) \<noteq> None"
  proof (rule plain_run)
    show "\<forall>x \<in> set (drop 2 ?P). plain x" by (rule configure_dialogue_parts(1))
    show "status a = Running" using a by simp
    show "\<forall>k. nread a \<le> k \<and> k < nread a + reads (drop 2 ?P) \<longrightarrow> returns w k"
      using a r(2) g(1) by (simp add: configure_dialogue_parts(2))
    show "\<forall>k. nsent a \<le> k \<and> k < nsent a + length (writes (drop 2 ?P)) \<longrightarrow> send_ok w k"
      using a r(3) g(3) by (simp add: configure_dialogue_parts(3))
    show "utf8_decode w (out_text a) \<noteq> None" using a by simp
  qed
  moreover have "run w ?P s = run w (drop 2 ?P) a"
    unfolding a_def using run_append [of w "[ReadUntil ''vyos login:'', PrintLastLine]" "drop 2 ?P" s]
      configure_dialogue_split(2) [of c l] by metis
  ultimately show ?thesis by simp
qed

lemma digest_unmatched:
  assumes "status a = Running"
    and "console w (nread a) = NoMatch t \<or> (console w (nread a) = Eof t \<and> t \<noteq> [])"
  shows "status (run w (digest_step l @ rest) a) = Returned
       \<and> trace (run w (digest_step l @ rest) a)
           = trace a @ [Warn (str ''Error generating file MD5 checksum.'')]"
  using assms by (auto simp: emit_def raise_def run_stopped)

lemma digest_matched:
  fixes w l a
  defines "b \<equiv> run w (digest_step l) a"
  assumes "status a = Running" "console w (nread a) = Match t g"
    and "utf8_decode w g = Some u" "first_token u = Some uploaded"
  shows "status b = Running \<and> nread b = Suc (nread a) \<and> nsent b = nsent a
       \<and> trace b = trace a @ [if uploaded \<noteq> l then Warn (str ''Checksums do not match.'')
                               else PrintStr (str ''Checksums match.'')]"
  using assms(2-5) unfolding b_def by (auto simp: emit_def raise_def)

lemma suffix_runs:
  assumes r: "status b = Running" "nread b = 6" "nsent b = 5"
    and g: "\<forall>k \<in> {6..9}. returns w k" "\<forall>k \<in> {5..8}. send_ok w k"
  shows "status (run w (drop 21 (configure_dialogue c l)) b) = Running"
proof -
  let ?S = "drop 23 (configure_dialogue c l)"
  define a where "a = run w [Write ''chmod +x config.sh\<newline>'', Expect [''vyos@vyos:~'' @ bs @ ''$''] 10] b"
  have a: "status a = Running \<and> nread a = Suc (nread b) \<and> nsent a = Suc (nsent b)
       \<and> utf8_decode w (out_text a) \<noteq> None"
    unfolding a_def using r g by (intro write_expect_step) auto
  have "status (run w ?S a) = Running \<and> utf8_decode w (out_text (run w ?S a)) \<noteq> None"
  proof (rule plain_run)
    show "\<forall>x \<in> set ?S. plain x" by (rule configure_dialogue_parts(9))
    show "status a = Running" using a by simp
    show "\<forall>k. nread a \<le> k \<and> k < nread a + reads ?S \<longrightarrow> returns w k"
      using a r(2) g(1) by (simp add: configure_dialogue_parts(10))
    show "\<forall>k. nsent a \<le> k \<and> k < nsent a + length (writes ?S) \<longrightarrow> send_ok w k"
      using a r(3) g(2) by (simp add: configure_dialogue_parts(11))
    show "utf8_decode w (out_text a) \<noteq> None" using a by simp
  qed
  moreover have "run w (drop 21 (configure_dialogue c l)) b = run w ?S a"
    unfolding a_def
    using run_append [of w "[Write ''chmod +x config.sh\<newline>'', Expect [''vyos@vyos:~'' @ bs @ ''$''] 10]" ?S b]
      configure_dialogue_split(3) [of c l] by metis
  ultimately show ?thesis by simp
qed

lemma configure_run_split:
  "run w (configure_dialogue c l) s =
     run w (drop 21 (configure_dialogue c l))
       (run w (digest_step l) (run w (take 18 (configure_dialogue c l)) s))"
proof -
  have "run w (take 18 (configure_dialogue c l) @ digest_step l @ drop 21 (configure_dialogue c l)) s =
     run w (drop 21 (configure_dialogue c l))
       (run w (digest_step l) (run w (take 18 (configure_dialogue c l)) s))"
    by (simp only: run_append)
  then show ?thesis using configure_dialogue_split(1) [of c l] by simp
qed

lemma configure_run_unmatched:
  assumes a: "status (run w (take 18 (configure_dialogue c l)) s) = Running"
      "nread (run w (take 18 (configure_dialogue c l)) s) = 5"
    and u: "console w 5 = NoMatch t \<or> (console w 5 = Eof t \<and> t \<noteq> [])"
  shows "status (run w (configure_dialogue c l) s) = Returned
       \<and> trace (run w (configure_dialogue c l) s)
           = trace (run w (take 18 (configure_dialogue c l)) s)
               @ [Warn (str ''Error generating file MD5 checksum.'')]"
proof -
  let ?a = "run w (take 18 (configure_dialogue c l)) s"
  have "run w (configure_dialogue c l) s = run w (digest_step l @ drop 21 (configure_dialogue c l)) ?a"
    using configure_run_split [of w c l s] by (simp only: run_append)
  then show ?thesis
    using digest_unmatched [where a = ?a and w = w and l = l
        and rest = "drop 21 (configure_dialogue c l)"] a u by simp
qed

lemma configure_run_matched:
  assumes a: "status (run w (take 18 (configure_dialogue c l)) s) = Running"
      "nread (run w (take 18 (configure_dialogue c l)) s) = 5"
      "nsent (run w (take 18 (configure_dialogue c l)) s) = 5"
    and m: "console w 5 = Match t g" "utf8_decode w g = Some u" "first_token u = Some uploaded"
  defines "ev \<equiv> (if uploaded \<noteq> l then Warn (str ''Checksums do not match.'')
                  else PrintStr (str ''Checksums match.''))"
  shows "ev \<in> set (trace (run w (configure_dialogue c l) s))"
    and "status (run w (configure_dialogue c l) s) \<noteq> Returned"
    and "(\<forall>k \<in> {6..9}. returns w k) \<Longrightarrow> (\<forall>k \<in> {5..8}. send_ok w k) \<Longrightarrow>
         status (run w (configure_dialogue c l) s) = Running"
proof -
  let ?a = "run w (take 18 (configure_dialogue c l)) s"
  let ?b = "run w (digest_step l) ?a"
  have b: "status ?b = Running \<and> nread ?b = Suc (nread ?a) \<and> nsent ?b = nsent ?a
       \<and> trace ?b = trace ?a @ [ev]"
    unfolding ev_def using a m digest_matched [where a = ?a and w = w and l = l] by simp
  have d: "run w (configure_dialogue c l) s = run w (drop 21 (configure_dialogue c l)) ?b"
    by (rule configure_run_split)
  show "ev \<in> set (trace (run w (configure_dialogue c l) s))"
    using b d run_keeps_events [of ev ?b w "drop 21 (configure_dialogue c l)"] by simp
  show "status (run w (configure_dialogue c l) s) \<noteq> Returned"
    using b d plain_not_returned [OF configure_dialogue_parts(8) [of c l], where s = ?b and w = w]
    by simp
  show "status (run w (configure_dialogue c l) s) = Running"
    if "\<forall>k \<in> {6..9}. returns w k" "\<forall>k \<in> {5..8}. send_ok w k"
    using that b d a suffix_runs [where b = ?b and w = w and c = c and l = l] by simp
qed

lemma configure_reaches_digest:
  assumes s: "s = configure_vyos_image_on_node w n h p path pre"
    and m: "Send ''md5sum config.sh\<newline>'' \<in> set (trace s)"
  obtains c0 c1 s0 where "file_read w 0 path = Some c0" "file_read w 1 path = Some c1"
    "status s0 = Running" "connect_ok w" "sent (trace s0) = []"
    "s = session w h p (configure_dialogue (b64encode c1) (md5_hexdigest w c0)) pre s0"
    "\<forall>e \<in> set (trace s0). setup_event e"
    "status (run w (take 18 (configure_dialogue (b64encode c1) (md5_hexdigest w c0)))
       (emit (Connect h p) s0)) = Running"
    "nread (run w (take 18 (configure_dialogue (b64encode c1) (md5_hexdigest w c0)))
       (emit (Connect h p) s0)) = 5"
    "nsent (run w (take 18 (configure_dialogue (b64encode c1) (md5_hexdigest w c0)))
       (emit (Connect h p) s0)) = 5"
    "sent (trace (run w (take 18 (configure_dialogue (b64encode c1) (md5_hexdigest w c0)))
       (emit (Connect h p) s0)))
     = writes (take 18 (configure_dialogue (b64encode c1) (md5_hexdigest w c0)))"
  using s
proof (cases rule: configure_cases)
  case setup_failed
  then show ?thesis using m by auto
next
  case (session c0 c1 s3)
  let ?dlg = "configure_dialogue (b64encode c1) (md5_hexdigest w c0)"
  have ok: "connect_ok w" using session_no_send [OF session(3,4)] m session(7) by metis
  have e: "sent (trace s3) = []" using session(4) sent_setup by simp
  have "Send ''md5sum config.sh\<newline>'' \<in> set (trace (run w ?dlg (emit (Connect h p) s3)))"
    using session_result(5) [OF session(3,4) ok, where h = h and p = p and body = ?dlg and pre = pre]
      m session(7) by simp
  then have "status (run w (take 18 ?dlg) (emit (Connect h p) s3)) = Running
       \<and> nread (run w (take 18 ?dlg) (emit (Connect h p) s3)) = 5
       \<and> nsent (run w (take 18 ?dlg) (emit (Connect h p) s3)) = 5
       \<and> sent (trace (run w (take 18 ?dlg) (emit (Connect h p) s3))) = writes (take 18 ?dlg)"
    using session(3,5,6) e by (intro prefix_reached) (simp_all add: emit_def sent_append)
  then show ?thesis using that [of c0 c1 s3] session ok e by simp
qed

text \<open>
  C5. In the configuration procedure, when the \<^verbatim>\<open>md5sum\<close> command has been sent and the
  digest pattern does not arrive within its deadline, the function returns at once with
  the warning \<^verbatim>\<open>Error generating file MD5 checksum.\<close>; the five messages up to
  \<^verbatim>\<open>md5sum config.sh\<close> are all that was ever written, so no chmod, no execution of the
  script, no poweroff.
\<close>

theorem digest_timeout_aborts:
  assumes "s = configure_vyos_image_on_node w node_id hostname telnet_port path_script pre_exec
         \<or> s = scenario_configure_vyos_image_on_node w node_id hostname telnet_port path_script"
      and "Send ''md5sum config.sh\<newline>'' \<in> set (trace s)"
      and "console w 5 = NoMatch t \<or> (console w 5 = Eof t \<and> t \<noteq> [])"
  shows "status s = Returned
       \<and> Warn (str ''Error generating file MD5 checksum.'') \<in> set (trace s)
       \<and> (\<exists>config. sent (trace s) =
            [''vyos\<newline>'', ''vyos\<newline>'', payload config,
             ''base64 --decode config.b64 > config.sh\<newline>'', ''md5sum config.sh\<newline>''])"
proof -
  obtain pre where "s = configure_vyos_image_on_node w node_id hostname telnet_port path_script pre"
    using assms(1) scenario_configure_eq by metis
  then show ?thesis using assms(2)
  proof (cases rule: configure_reaches_digest)
    case (1 c0 c1 s0)
    let ?dlg = "configure_dialogue (b64encode c1) (md5_hexdigest w c0)"
    let ?d = "run w ?dlg (emit (Connect hostname telnet_port) s0)"
    let ?a = "run w (take 18 ?dlg) (emit (Connect hostname telnet_port) s0)"
    have d: "status ?d = Returned"
        "trace ?d = trace ?a @ [Warn (str ''Error generating file MD5 checksum.'')]"
      using configure_run_unmatched [OF 1(8,9) assms(3)] by simp_all
    have "sent (trace ?d) = writes (take 18 ?dlg)" using d(2) 1(11) by (simp add: sent_append)
    then show ?thesis
      using d session_result(1,3,4) [OF 1(3,7,4), where h = hostname and p = telnet_port
          and body = ?dlg and pre = pre] 1(6)
      by (auto simp: configure_dialogue_parts(6))
  qed
qed

text \<open>
  C2. In the configuration procedure, when the digest read from the console differs from
  the digest of the local file, the warning \<^verbatim>\<open>Checksums do not match.\<close> is recorded and
  the function does not return there. The dialogue goes on: when the later reads hand back
  data and the later writes succeed, the function runs to its last line and, after the
  five messages sent so far, writes the chmod, the execution of the script, the poweroff
  and its confirmation.
\<close>

theorem digest_mismatch_proceeds:
  assumes "s = configure_vyos_image_on_node w node_id hostname telnet_port path_script pre_exec
         \<or> s = scenario_configure_vyos_image_on_node w node_id hostname telnet_port path_script"
      and "Send ''md5sum config.sh\<newline>'' \<in> set (trace s)"
      and "console w 5 = Match t g" "utf8_decode w g = Some u"
      and "first_token u = Some uploaded_checksum"
      and "file_read w 0 path_script = Some content"
      and "uploaded_checksum \<noteq> md5_hexdigest w content"
  shows "Warn (str ''Checksums do not match.'') \<in> set (trace s)
       \<and> status s \<noteq> Returned
       \<and> ((\<forall>k \<in> {6..9}. returns w k) \<and> (\<forall>k \<in> {5..8}. send_ok w k) \<longrightarrow>
            status s = Finished
            \<and> drop 5 (sent (trace s)) =
                [''chmod +x config.sh\<newline>'', ''./config.sh\<newline>'', ''poweroff\<newline>'',
                 ''y\<newline>''])"
proof -
  obtain pre where "s = configure_vyos_image_on_node w node_id hostname telnet_port path_script pre"
    using assms(1) scenario_configure_eq by metis
  then show ?thesis using assms(2)
  proof (cases rule: configure_reaches_digest)
    case (1 c0 c1 s0)
    let ?l = "md5_hexdigest w c0"
    let ?dlg = "configure_dialogue (b64encode c1) ?l"
    let ?d = "run w ?dlg (emit (Connect hostname telnet_port) s0)"
    have l: "uploaded_checksum \<noteq> ?l" using assms(6,7) 1(1) by simp
    note sr = session_result [OF 1(3,7,4), where h = hostname and p = telnet_port
          and body = ?dlg and pre = pre]
    note rm = configure_run_matched [OF 1(8,9,10) assms(3,4,5)]
    have w: "Warn (str ''Checksums do not match.'') \<in> set (trace s)"
      using rm(1) l sr(4) 1(6) by simp
    have nr: "status s \<noteq> Returned"
      using rm(2) sr(2,3) 1(6) by (cases "status ?d = Running") simp_all
    have fin: "status s = Finished \<and> drop 5 (sent (trace s)) =
                [''chmod +x config.sh\<newline>'', ''./config.sh\<newline>'', ''poweroff\<newline>'',
                 ''y\<newline>'']"
      if "\<forall>k \<in> {6..9}. returns w k" "\<forall>k \<in> {5..8}. send_ok w k"
    proof -
      have r: "status ?d = Running" using rm(3) that by simp
      then have "sent (trace ?d) = writes ?dlg"
        using run_running [of w ?dlg "emit (Connect hostname telnet_port) s0"] 1(5)
        by (simp add: emit_def sent_append)
      then show ?thesis using r sr(1,2) 1(6) by (simp add: configure_writes)
    qed
    show ?thesis using w nr fin by blast
  qed
qed

subsection \<open>Evaluations at the example worlds\<close>

lemmas run_defs = install_vyos_image_on_node_def configure_vyos_image_on_node_def
  configure_session_def popen_if_def kill_if_def finish_def with_Telnet_def truthy_def start_def
  emit_def raise_def md5sum_file_def read_file_def Let_def
  install_dialogue_def configure_dialogue_def

lemmas world_defs = lab_world_def timeout_at_def ascii_decode_def install_prompts_def
  configure_prompts_def

text \<open>
  C4. With \<^verbatim>\<open>pre_exec\<close> given and the digest read timing out, the configuration leaves
  through its \<^verbatim>\<open>return\<close>: the terminal viewer was started and \<^verbatim>\<open>pre_proc.kill()\<close>, the
  last line of the function, is never reached.
\<close>

theorem helper_left_running_on_early_return:
  "status (configure_vyos_image_on_node
      (timeout_at 5 (lab_world (configure_prompts ''d28b1973427f736bce1d09e6babe5ec8'')))
      ''router'' ''localhost'' 5000 ''config.sh'' (Some ''konsole -e telnet localhost 5000''))
     = Returned
   \<and> Popen ''konsole -e telnet localhost 5000''
       \<in> set (trace (configure_vyos_image_on_node
            (timeout_at 5 (lab_world (configure_prompts ''d28b1973427f736bce1d09e6babe5ec8'')))
            ''router'' ''localhost'' 5000 ''config.sh'' (Some ''konsole -e telnet localhost 5000'')))
   \<and> Kill \<notin> set (trace (configure_vyos_image_on_node
            (timeout_at 5 (lab_world (configure_prompts ''d28b1973427f736bce1d09e6babe5ec8'')))
            ''router'' ''localhost'' 5000 ''config.sh'' (Some ''konsole -e telnet localhost 5000'')))"
  by (simp add: run_defs world_defs)

text \<open>
  C1, as stated, fails. In a world where the second read of the installation (the wait
  for \<^verbatim>\<open>Password:\<close>) times out, \<^verbatim>\<open>tn.expect\<close> hands back index -1, which the source
  prints and does not test: the function runs to its last line and all fifteen outbound
  messages are written, those of the later steps too.
\<close>

theorem timeout_counterexample:
  "console (timeout_at 1 (lab_world install_prompts)) 1 = NoMatch []
   \<and> status (install_vyos_image_on_node (timeout_at 1 (lab_world install_prompts))
        ''router'' ''localhost'' 5000 None) = Finished
   \<and> sent (trace (install_vyos_image_on_node (timeout_at 1 (lab_world install_prompts))
        ''router'' ''localhost'' 5000 None))
     = [''vyos\<newline>'', ''vyos\<newline>'', ''install image\<newline>'', ''Yes\<newline>'',
        ''Auto\<newline>'', ''\<newline>'', ''Yes\<newline>'', ''\<newline>'', ''\<newline>'', ''\<newline>'',
        ''vyos\<newline>'', ''vyos\<newline>'', ''\<newline>'', ''poweroff\<newline>'', ''y\<newline>'']"
  by (simp add: run_defs world_defs)

text \<open>
  C6, as stated, fails at the first step. The wait for \<^verbatim>\<open>vyos login:\<close> is a
  \<^verbatim>\<open>read_until\<close> without timeout: it has no deadline of 10 or 30 seconds, and a console
  that never shows the banner blocks the function forever.
\<close>

theorem banner_wait_counterexample:
  "snd (hd (awaits install_dialogue)) = None
   \<and> status (install_vyos_image_on_node (timeout_at 0 (lab_world install_prompts))
        ''router'' ''localhost'' 5000 None) = Blocked"
  by (simp add: run_defs world_defs)

text \<open>
  C9, as stated, fails: the file is not read once. \<^verbatim>\<open>md5sum_file\<close> opens and reads it,
  then the function opens and reads it again for the encoding.
\<close>

theorem file_read_counterexample:
  "count_list (trace (configure_vyos_image_on_node
      (lab_world (configure_prompts ''d28b1973427f736bce1d09e6babe5ec8''))
      ''router'' ''localhost'' 5000 ''config.sh'' None)) (FileRead ''config.sh'') = 2"
  by (simp add: run_defs world_defs first_token_def py_isspace_def str_def)

subsection \<open>Timeouts, deadlines, upload, digest, endpoint\<close>

lemma install_writes:
  "writes install_dialogue =
     [''vyos\<newline>'', ''vyos\<newline>'', ''install image\<newline>'', ''Yes\<newline>'',
      ''Auto\<newline>'', ''\<newline>'', ''Yes\<newline>'', ''\<newline>'', ''\<newline>'', ''\<newline>'',
      ''vyos\<newline>'', ''vyos\<newline>'', ''\<newline>'', ''poweroff\<newline>'', ''y\<newline>'']"
  by (simp add: install_dialogue_def)

lemma configure_completes:
  assumes s: "s = configure_vyos_image_on_node w n h p path pre"
    and "connect_ok w" "truthy pre \<longrightarrow> popen_ok w"
    and f: "file_read w 0 path = Some c0" "file_read w 1 path = Some c1"
    and g: "\<forall>k<10. k \<noteq> 5 \<longrightarrow> returns w k" "\<forall>t. console w 0 \<noteq> NoMatch t" "\<forall>k<9. send_ok w k"
    and m: "console w 5 = Match t g" "utf8_decode w g = Some u" "first_token u = Some uploaded"
  shows "status s = Finished
       \<and> sent (trace s) = writes (configure_dialogue (b64encode c1) (md5_hexdigest w c0))"
  using s
proof (cases rule: configure_cases)
  case setup_failed
  then show ?thesis using assms(3) f by auto
next
  case (session c0' c1' s3)
  let ?dlg = "configure_dialogue (b64encode c1) (md5_hexdigest w c0)"
  let ?s0 = "emit (Connect h p) s3"
  have eq: "c0' = c0" "c1' = c1" using session(1,2) f by simp_all
  have r0: "status ?s0 = Running" "nread ?s0 = 0" "nsent ?s0 = 0" "sent (trace ?s0) = []"
    using session(3-6) sent_setup by (simp_all add: emit_def sent_append)
  have a: "status (run w (take 18 ?dlg) ?s0) = Running"
    using r0 g by (intro prefix_runs) auto
  then have a': "nread (run w (take 18 ?dlg) ?s0) = 5" "nsent (run w (take 18 ?dlg) ?s0) = 5"
    using run_running [of w "take 18 ?dlg" ?s0] r0
    by (simp_all add: configure_dialogue_parts(5,6))
  have "status (run w ?dlg ?s0) = Running"
  proof (rule configure_run_matched(3) [OF a a' m])
    show "\<forall>k \<in> {6..9}. returns w k" using g(1) by simp
    show "\<forall>k \<in> {5..8}. send_ok w k" using g(3) by simp
  qed
  moreover from this have "sent (trace (run w ?dlg ?s0)) = writes ?dlg"
    using run_running [of w ?dlg ?s0] r0 by simp
  ultimately show ?thesis
    using session_result(1,2) [OF session(3,4) assms(2), where h = h and p = p
        and body = ?dlg and pre = pre] session(7) eq by simp
qed

text \<open>
  C1, amended. A read that times out does not end the session: \<^verbatim>\<open>tn.expect\<close> reports
  index -1 and the next statement runs. When step \<open>i\<close> (any step after the wait for the
  login banner) times out and every read hands back data that decodes, both procedures
  run to their last line and write every outbound message of the script, those after
  step \<open>i\<close> included. The one step whose timeout ends the session is the digest step of
  the configuration (read 5), excluded here.
\<close>

theorem dialogue_survives_timeout:
  assumes "connect_ok w" and "truthy pre_exec \<longrightarrow> popen_ok w"
      and "\<forall>t. console w 0 \<noteq> NoMatch t"
      and "0 < i" and "console w i = NoMatch t"
  shows "(i < 15 \<and> (\<forall>k<15. returns w k) \<and> (\<forall>k<15. send_ok w k) \<longrightarrow>
            status (install_vyos_image_on_node w node_id hostname telnet_port pre_exec) = Finished
            \<and> sent (trace (install_vyos_image_on_node w node_id hostname telnet_port pre_exec))
                = [''vyos\<newline>'', ''vyos\<newline>'', ''install image\<newline>'', ''Yes\<newline>'',
                   ''Auto\<newline>'', ''\<newline>'', ''Yes\<newline>'', ''\<newline>'', ''\<newline>'',
                   ''\<newline>'', ''vyos\<newline>'', ''vyos\<newline>'', ''\<newline>'',
                   ''poweroff\<newline>'', ''y\<newline>''])
       \<and> (i < 10 \<and> i \<noteq> 5 \<and> (\<forall>k<10. k \<noteq> 5 \<longrightarrow> returns w k) \<and> (\<forall>k<9. send_ok w k)
            \<and> file_read w 0 path_script = Some content0
            \<and> file_read w 1 path_script = Some content
            \<and> console w 5 = Match t5 g \<and> utf8_decode w g = Some u
            \<and> first_token u = Some uploaded_checksum \<longrightarrow>
            status (configure_vyos_image_on_node w node_id hostname telnet_port path_script pre_exec)
              = Finished
            \<and> sent (trace (configure_vyos_image_on_node w node_id hostname telnet_port path_script
                  pre_exec))
                = [''vyos\<newline>'', ''vyos\<newline>'', payload (b64encode content),
                   ''base64 --decode config.b64 > config.sh\<newline>'', ''md5sum config.sh\<newline>'',
                   ''chmod +x config.sh\<newline>'', ''./config.sh\<newline>'', ''poweroff\<newline>'',
                   ''y\<newline>''])"
proof (intro conjI impI)
  assume h: "i < 15 \<and> (\<forall>k<15. returns w k) \<and> (\<forall>k<15. send_ok w k)"
  have "status (install_vyos_image_on_node w node_id hostname telnet_port pre_exec) = Finished
      \<and> sent (trace (install_vyos_image_on_node w node_id hostname telnet_port pre_exec))
          = writes install_dialogue"
    using h assms(1-3) by (intro install_completes [OF refl]) auto
  then show "status (install_vyos_image_on_node w node_id hostname telnet_port pre_exec) = Finished"
    and "sent (trace (install_vyos_image_on_node w node_id hostname telnet_port pre_exec))
                = [''vyos\<newline>'', ''vyos\<newline>'', ''install image\<newline>'', ''Yes\<newline>'',
                   ''Auto\<newline>'', ''\<newline>'', ''Yes\<newline>'', ''\<newline>'', ''\<newline>'',
                   ''\<newline>'', ''vyos\<newline>'', ''vyos\<newline>'', ''\<newline>'',
                   ''poweroff\<newline>'', ''y\<newline>'']"
    by (simp_all add: install_writes)
next
  assume h: "i < 10 \<and> i \<noteq> 5 \<and> (\<forall>k<10. k \<noteq> 5 \<longrightarrow> returns w k) \<and> (\<forall>k<9. send_ok w k)
            \<and> file_read w 0 path_script = Some content0
            \<and> file_read w 1 path_script = Some content
            \<and> console w 5 = Match t5 g \<and> utf8_decode w g = Some u
            \<and> first_token u = Some uploaded_checksum"
  have "status (configure_vyos_image_on_node w node_id hostname telnet_port path_script pre_exec)
          = Finished
      \<and> sent (trace (configure_vyos_image_on_node w node_id hostname telnet_port path_script
            pre_exec))
          = writes (configure_dialogue (b64encode content) (md5_hexdigest w content0))"
    using h assms(1-3) by (intro configure_completes [OF refl]) auto
  then show "status (configure_vyos_image_on_node w node_id hostname telnet_port path_script pre_exec)
              = Finished"
    and "sent (trace (configure_vyos_image_on_node w node_id hostname telnet_port path_script
                  pre_exec))
                = [''vyos\<newline>'', ''vyos\<newline>'', payload (b64encode content),
                   ''base64 --decode config.b64 > config.sh\<newline>'', ''md5sum config.sh\<newline>'',
                   ''chmod +x config.sh\<newline>'', ''./config.sh\<newline>'', ''poweroff\<newline>'',
                   ''y\<newline>'']"
    by (simp_all add: configure_writes)
qed

lemma install_awaits:
  "awaits install_dialogue =
     [([''vyos login:''], None),
      ([''Password:''], Some 10),
      ([''vyos@vyos:~'' @ bs @ ''$''], Some 10),
      ([''Would you like to continue'' @ bs @ ''? '' @ bs @ ''(Yes/No'' @ bs @ '')''], Some 10),
      ([''Partition '' @ bs @ ''(Auto/Parted/Skip'' @ bs @ '')''], Some 10),
      ([''Install the image on''], Some 10),
      ([''Continue'' @ bs @ ''? '' @ bs @ ''(Yes/No'' @ bs @ '')''], Some 10),
      ([''How big of a root partition should I create''], Some 30),
      ([''What would you like to name this image''], Some 30),
      ([''Which one should I copy to''], Some 30),
      ([''Enter password for user 'vyos':''], Some 10),
      ([''Retype password for user 'vyos':''], Some 10),
      ([''Which drive should GRUB modify the boot partition on''], Some 10),
      ([''vyos@vyos:~'' @ bs @ ''$''], Some 30),
      ([''Are you sure you want to poweroff this system''], Some 10)]"
  by (simp add: install_dialogue_def)

text \<open>
  C6, amended. The installation is a fixed linear script. When every read matches its
  prompt and the text read decodes, the function runs to its last line and writes the
  fifteen fixed messages in the fixed order, the same \<^verbatim>\<open>vyos\<close> line at the password entry
  and at its confirmation. Every \<^verbatim>\<open>expect\<close> has a deadline of 10 seconds, or of 30 seconds
  for the four prompts that follow a disk operation; the initial wait for the login banner
  has none.
\<close>

theorem install_script_fixed:
  assumes "connect_ok w" and "truthy pre_exec \<longrightarrow> popen_ok w"
      and "\<forall>k<15. \<exists>t g. console w k = Match t g \<and> utf8_decode w t \<noteq> None"
      and "\<forall>k<15. send_ok w k"
  shows "status (install_vyos_image_on_node w node_id hostname telnet_port pre_exec) = Finished
       \<and> sent (trace (install_vyos_image_on_node w node_id hostname telnet_port pre_exec))
           = [''vyos\<newline>'', ''vyos\<newline>'', ''install image\<newline>'', ''Yes\<newline>'',
              ''Auto\<newline>'', ''\<newline>'', ''Yes\<newline>'', ''\<newline>'', ''\<newline>'',
              ''\<newline>'', ''vyos\<newline>'', ''vyos\<newline>'', ''\<newline>'',
              ''poweroff\<newline>'', ''y\<newline>'']
       \<and> map snd (awaits install_dialogue)
           = [None, Some 10, Some 10, Some 10, Some 10, Some 10, Some 10, Some 30, Some 30,
              Some 30, Some 10, Some 10, Some 10, Some 30, Some 10]"
proof -
  have r: "\<forall>k<15. returns w k"
    using assms(3) by (auto simp: returns_def)
  have n: "\<forall>t. console w 0 \<noteq> NoMatch t"
    using assms(3) by (metis reply.distinct(1) zero_less_numeral)
  have "status (install_vyos_image_on_node w node_id hostname telnet_port pre_exec) = Finished
      \<and> sent (trace (install_vyos_image_on_node w node_id hostname telnet_port pre_exec))
          = writes install_dialogue"
    using assms(1,2,4) r n by (intro install_completes [OF refl]) auto
  then show ?thesis by (simp add: install_writes install_awaits)
qed

text \<open>
  C7. The third message of the configuration, once written, is byte for byte the shell
  command \<^verbatim>\<open>echo '\<close>, the Base64 encoding of the content read from the local file,
  \<^verbatim>\<open>' >> config.b64\<close> and a line feed. The encoding holds no single quote, so it is the
  argument of \<^verbatim>\<open>echo\<close> as it stands, and decoding it, with or without the line feed
  \<^verbatim>\<open>echo\<close> appends, gives back exactly the bytes of the file, whatever they are.
\<close>

theorem upload_decodes_to_file_content:
  assumes "s = configure_vyos_image_on_node w node_id hostname telnet_port path_script pre_exec
         \<or> s = scenario_configure_vyos_image_on_node w node_id hostname telnet_port path_script"
      and "file_read w 1 path_script = Some content"
      and "2 < length (sent (trace s))"
  shows "sent (trace s) ! 2
           = ''echo '' @ [CHR 0x27] @ b64encode content @ [CHR 0x27] @ '' >> config.b64\<newline>''
       \<and> CHR 0x27 \<notin> set (b64encode content)
       \<and> b64decode (b64encode content) = Some content
       \<and> b64decode (b64encode content @ ''\<newline>'') = Some content"
proof -
  obtain pre where "s = configure_vyos_image_on_node w node_id hostname telnet_port path_script pre"
    using assms(1) scenario_configure_eq by metis
  then have "sent (trace s) ! 2 = payload (b64encode content)"
  proof (cases rule: configure_cases)
    case setup_failed
    then show ?thesis using assms(3) sent_setup by simp
  next
    case (session c0 c1 s3)
    let ?dlg = "configure_dialogue (b64encode c1) (md5_hexdigest w c0)"
    let ?s0 = "emit (Connect hostname telnet_port) s3"
    have c: "c1 = content" using session(2) assms(2) by simp
    have e: "sent (trace ?s0) = []" "status ?s0 = Running"
      using session(3,4) sent_setup by (simp_all add: emit_def sent_append)
    have ok: "connect_ok w"
    proof (rule ccontr)
      assume "\<not> connect_ok w"
      then have "trace s = trace s3"
        using session_refused [OF session(3)] session(7) by (simp add: raise_def)
      then show False using assms(3) session(4) sent_setup by simp
    qed
    have st: "sent (trace s) = sent (trace (run w ?dlg ?s0))"
      using session_result(1) [OF session(3,4) ok, where h = hostname and p = telnet_port
        and body = ?dlg and pre = pre] session(7) by simp
    have "sent (trace (run w ?dlg ?s0)) ! 2 = writes ?dlg ! 2"
    proof (cases "status (run w ?dlg ?s0) = Running")
      case True
      then show ?thesis using run_running [of w ?dlg ?s0] e by simp
    next
      case False
      then obtain j where "sent (trace (run w ?dlg ?s0)) = writes (take j ?dlg)"
        using run_stops [OF e(2) False] e(1) by auto
      then show ?thesis using writes_take_nth [of 2 j ?dlg] assms(3) st by simp
    qed
    then show ?thesis using st c by (simp add: configure_writes)
  qed
  moreover have "CHR 0x27 \<notin> set (b64encode content)" using b64encode_chars by blast
  ultimately show ?thesis
    using b64decode_encode b64decode_encode_line by (simp add: payload_def)
qed

text \<open>
  C8. \<^verbatim>\<open>md5sum_file\<close> returns the hexadecimal digest of the bytes it reads and does
  nothing but that one read; two calls that read the same bytes, from whatever path and in
  whatever session state, return the same digest.
\<close>

theorem md5sum_file_pure:
  assumes "file_read w (nfile s) fname = Some data"
      and "file_read w (nfile s') fname' = Some data"
  shows "md5sum_file w fname s
           = (Some (md5_hexdigest w data), emit (FileRead fname) (s\<lparr>nfile := Suc (nfile s)\<rparr>))
       \<and> fst (md5sum_file w fname' s') = fst (md5sum_file w fname s)"
  using assms by (simp add: md5sum_file_def read_file_def)

text \<open>
  C10. For an answer of the server that carries the three keys: when the console type is
  not \<^verbatim>\<open>telnet\<close> the assertion fails; otherwise the result is the pair of host and
  port, where the port is the reported console port and the host is the address of the
  GNS3 server when the node reports \<^verbatim>\<open>0.0.0.0\<close> or \<^verbatim>\<open>::\<close>, and the reported host
  otherwise.
\<close>

theorem console_endpoint_resolution:
  assumes "code < 400 \<or> 600 \<le> code"
      and "body ''console_type'' = Some console_type"
      and "body ''console_host'' = Some console_host"
      and "body ''console'' = Some console_port"
  shows "(console_type \<noteq> JString ''telnet'' \<longrightarrow>
            get_node_telnet_host_port server project node_id (Response code body)
              = Inl AssertionError)
       \<and> (console_type = JString ''telnet'' \<longrightarrow>
            get_node_telnet_host_port server project node_id (Response code body)
              = Inr (if console_host = JString ''0.0.0.0'' \<or> console_host = JString ''::''
                     then JString (addr server) else console_host,
                     console_port))"
  using assms by (auto simp: get_node_telnet_host_port_def)

subsection \<open>The theorems at the example worlds\<close>

lemma lab_digest:
  "utf8_decode (lab_world ps) (''d28b1973427f736bce1d09e6babe5ec8'' @ ''  config.sh'')
     = Some (str (''d28b1973427f736bce1d09e6babe5ec8'' @ ''  config.sh''))"
  "first_token (str (''d28b1973427f736bce1d09e6babe5ec8'' @ ''  config.sh''))
     = Some (str ''d28b1973427f736bce1d09e6babe5ec8'')"
  "utf8_decode (lab_world ps) (''00000000000000000000000000000000'' @ ''  config.sh'')
     = Some (str (''00000000000000000000000000000000'' @ ''  config.sh''))"
  "first_token (str (''00000000000000000000000000000000'' @ ''  config.sh''))
     = Some (str ''00000000000000000000000000000000'')"
  by (simp_all add: lab_world_def ascii_decode_def str_def first_token_def py_isspace_def)

lemma install_world_returns: "k < 15 \<Longrightarrow> returns (timeout_at i (lab_world install_prompts)) k"
proof -
  assume k: "k < 15"
  have "list_all (\<lambda>p. ascii_decode p \<noteq> None) install_prompts"
    by (simp add: install_prompts_def ascii_decode_def)
  then have "ascii_decode (install_prompts ! k) \<noteq> None"
    using k by (simp add: list_all_length install_prompts_def)
  moreover have "length install_prompts = 15" by (simp add: install_prompts_def)
  ultimately show ?thesis
    using k by (simp add: returns_def timeout_at_def lab_world_def ascii_decode_def)
qed

lemma configure_world_returns:
  assumes d: "list_all (\<lambda>c. (of_char c :: nat) < 128) digest" and k: "k < 10"
  shows "returns (timeout_at i (lab_world (configure_prompts digest))) k"
proof -
  let ?ps = "configure_prompts digest"
  have "list_all (\<lambda>p. ascii_decode p \<noteq> None) ?ps"
    using d by (simp add: configure_prompts_def ascii_decode_def)
  then have "ascii_decode (?ps ! k) \<noteq> None"
    using k by (simp add: list_all_length configure_prompts_def)
  moreover have "length ?ps = 10" by (simp add: configure_prompts_def)
  ultimately show ?thesis
    using k by (simp add: returns_def timeout_at_def lab_world_def ascii_decode_def)
qed

text \<open>
  C1, amended, at the example worlds with the read of index 3 timing out: both
  procedures finish and write their whole script.
\<close>

theorem dialogue_survives_timeout_witness:
  "(console (timeout_at 3 (lab_world install_prompts)) 3 = NoMatch []
    \<and> status (install_vyos_image_on_node (timeout_at 3 (lab_world install_prompts))
         ''router'' ''localhost'' 5000 (Some ''konsole'')) = Finished
    \<and> sent (trace (install_vyos_image_on_node (timeout_at 3 (lab_world install_prompts))
         ''router'' ''localhost'' 5000 (Some ''konsole'')))
        = [''vyos\<newline>'', ''vyos\<newline>'', ''install image\<newline>'', ''Yes\<newline>'',
           ''Auto\<newline>'', ''\<newline>'', ''Yes\<newline>'', ''\<newline>'', ''\<newline>'',
           ''\<newline>'', ''vyos\<newline>'', ''vyos\<newline>'', ''\<newline>'',
           ''poweroff\<newline>'', ''y\<newline>''])
   \<and> (console (timeout_at 3 (lab_world (configure_prompts ''d28b1973427f736bce1d09e6babe5ec8''))) 3
        = NoMatch []
    \<and> status (configure_vyos_image_on_node
         (timeout_at 3 (lab_world (configure_prompts ''d28b1973427f736bce1d09e6babe5ec8'')))
         ''router'' ''localhost'' 5000 ''config.sh'' (Some ''konsole'')) = Finished
    \<and> sent (trace (configure_vyos_image_on_node
         (timeout_at 3 (lab_world (configure_prompts ''d28b1973427f736bce1d09e6babe5ec8'')))
         ''router'' ''localhost'' 5000 ''config.sh'' (Some ''konsole'')))
        = [''vyos\<newline>'', ''vyos\<newline>'', payload (b64encode ''echo hi''),
           ''base64 --decode config.b64 > config.sh\<newline>'', ''md5sum config.sh\<newline>'',
           ''chmod +x config.sh\<newline>'', ''./config.sh\<newline>'', ''poweroff\<newline>'',
           ''y\<newline>''])"
proof -
  let ?w = "timeout_at 3 (lab_world install_prompts)"
  let ?v = "timeout_at 3 (lab_world (configure_prompts ''d28b1973427f736bce1d09e6babe5ec8''))"
  have h1: "connect_ok ?w" "connect_ok ?v" by (simp_all add: world_defs)
  have h2: "truthy (Some ''konsole'') \<longrightarrow> popen_ok ?w" "truthy (Some ''konsole'') \<longrightarrow> popen_ok ?v"
    by (simp_all add: world_defs)
  have h3: "\<forall>t. console ?w 0 \<noteq> NoMatch t" "\<forall>t. console ?v 0 \<noteq> NoMatch t"
    by (simp_all add: world_defs)
  have h4: "(0::nat) < 3" by simp
  have h5: "console ?w 3 = NoMatch []" "console ?v 3 = NoMatch []" by (simp_all add: world_defs)
  have h6: "(3::nat) < 15 \<and> (\<forall>k<15. returns ?w k) \<and> (\<forall>k<15. send_ok ?w k)"
    using install_world_returns by (simp add: timeout_at_def lab_world_def)
  have h7: "(3::nat) < 10 \<and> (3::nat) \<noteq> 5 \<and> (\<forall>k<10. k \<noteq> 5 \<longrightarrow> returns ?v k)
      \<and> (\<forall>k<9. send_ok ?v k)
      \<and> file_read ?v 0 ''config.sh'' = Some ''echo hi''
      \<and> file_read ?v 1 ''config.sh'' = Some ''echo hi''
      \<and> console ?v 5 = Match (''d28b1973427f736bce1d09e6babe5ec8'' @ ''  config.sh'')
            (''d28b1973427f736bce1d09e6babe5ec8'' @ ''  config.sh'')
      \<and> utf8_decode ?v (''d28b1973427f736bce1d09e6babe5ec8'' @ ''  config.sh'')
          = Some (str (''d28b1973427f736bce1d09e6babe5ec8'' @ ''  config.sh''))
      \<and> first_token (str (''d28b1973427f736bce1d09e6babe5ec8'' @ ''  config.sh''))
          = Some (str ''d28b1973427f736bce1d09e6babe5ec8'')"
    using configure_world_returns [of "''d28b1973427f736bce1d09e6babe5ec8''" _ 3]
      lab_digest(1) [of "configure_prompts ''d28b1973427f736bce1d09e6babe5ec8''"] lab_digest(2)
    by (simp add: timeout_at_def lab_world_def configure_prompts_def)
  show ?thesis
    using dialogue_survives_timeout [OF h1(1) h2(1) h3(1) h4 h5(1),
        where node_id = "''router''" and hostname = "''localhost''" and telnet_port = 5000]
      dialogue_survives_timeout [OF h1(2) h2(2) h3(2) h4 h5(2),
        where node_id = "''router''" and hostname = "''localhost''" and telnet_port = 5000
          and path_script = "''config.sh''" and content0 = "''echo hi''"
          and content = "''echo hi''"
          and ?t5.0 = "''d28b1973427f736bce1d09e6babe5ec8'' @ ''  config.sh''"
          and g = "''d28b1973427f736bce1d09e6babe5ec8'' @ ''  config.sh''"
          and u = "str (''d28b1973427f736bce1d09e6babe5ec8'' @ ''  config.sh'')"
          and uploaded_checksum = "str ''d28b1973427f736bce1d09e6babe5ec8''"]
      h5 h6 h7 by simp
qed

lemma lab_world_returns:
  assumes "list_all (\<lambda>p. ascii_decode p \<noteq> None) ps" "k < length ps"
  shows "returns (lab_world ps) k"
  using assms by (simp add: returns_def lab_world_def list_all_length)

lemma lab_world_matches:
  assumes "list_all (\<lambda>p. ascii_decode p \<noteq> None) ps" "k < length ps"
  shows "\<exists>t g. console (lab_world ps) k = Match t g \<and> utf8_decode (lab_world ps) t \<noteq> None"
  using assms by (simp add: lab_world_def list_all_length)

lemma prompts_ascii:
  "list_all (\<lambda>p. ascii_decode p \<noteq> None) install_prompts"
  "list_all (\<lambda>p. ascii_decode p \<noteq> None) (configure_prompts ''d28b1973427f736bce1d09e6babe5ec8'')"
  "list_all (\<lambda>p. ascii_decode p \<noteq> None) (configure_prompts ''00000000000000000000000000000000'')"
  "length install_prompts = 15"
  "length (configure_prompts d) = 10"
  by (simp_all add: install_prompts_def configure_prompts_def ascii_decode_def)

lemmas eval_defs = run_defs world_defs first_token_def py_isspace_def str_def

text \<open>
  C2 at the example world whose console answers the digest 0000... while the local digest
  is d28b...: warning, all four remaining commands sent, function finished.
\<close>

theorem digest_mismatch_proceeds_witness:
  "Send ''md5sum config.sh\<newline>''
     \<in> set (trace (configure_vyos_image_on_node
          (lab_world (configure_prompts ''00000000000000000000000000000000''))
          ''router'' ''localhost'' 5000 ''config.sh'' None))
   \<and> str ''00000000000000000000000000000000''
       \<noteq> md5_hexdigest (lab_world (configure_prompts ''00000000000000000000000000000000''))
            ''echo hi''
   \<and> Warn (str ''Checksums do not match.'')
       \<in> set (trace (configure_vyos_image_on_node
            (lab_world (configure_prompts ''00000000000000000000000000000000''))
            ''router'' ''localhost'' 5000 ''config.sh'' None))
   \<and> status (configure_vyos_image_on_node
         (lab_world (configure_prompts ''00000000000000000000000000000000''))
         ''router'' ''localhost'' 5000 ''config.sh'' None) = Finished
   \<and> drop 5 (sent (trace (configure_vyos_image_on_node
         (lab_world (configure_prompts ''00000000000000000000000000000000''))
         ''router'' ''localhost'' 5000 ''config.sh'' None)))
       = [''chmod +x config.sh\<newline>'', ''./config.sh\<newline>'', ''poweroff\<newline>'',
          ''y\<newline>'']"
proof -
  let ?w = "lab_world (configure_prompts ''00000000000000000000000000000000'')"
  let ?s = "configure_vyos_image_on_node ?w ''router'' ''localhost'' 5000 ''config.sh'' None"
  let ?g = "''00000000000000000000000000000000'' @ ''  config.sh''"
  have a1: "?s = configure_vyos_image_on_node ?w ''router'' ''localhost'' 5000 ''config.sh'' None
      \<or> ?s = scenario_configure_vyos_image_on_node ?w ''router'' ''localhost'' 5000 ''config.sh''"
    by simp
  have a2: "Send ''md5sum config.sh\<newline>'' \<in> set (trace ?s)" by (simp add: eval_defs)
  have a3: "console ?w 5 = Match ?g ?g" by (simp add: world_defs)
  have a4: "utf8_decode ?w ?g = Some (str ?g)" by (rule lab_digest(3))
  have a5: "first_token (str ?g) = Some (str ''00000000000000000000000000000000'')"
    by (rule lab_digest(4))
  have a6: "file_read ?w 0 ''config.sh'' = Some ''echo hi''" by (simp add: world_defs)
  have a7: "str ''00000000000000000000000000000000'' \<noteq> md5_hexdigest ?w ''echo hi''"
    by (simp add: world_defs str_def)
  have a8: "(\<forall>k \<in> {6..9}. returns ?w k) \<and> (\<forall>k \<in> {5..8}. send_ok ?w k)"
    using lab_world_returns [OF prompts_ascii(3)] prompts_ascii(5)
    by (simp add: lab_world_def)
  show ?thesis
    using digest_mismatch_proceeds [OF a1 a2 a3 a4 a5 a6 a7] a2 a7 a8 by simp
qed

text \<open>
  C3 on the early return of the configuration, where the digest read times out.
\<close>

theorem transport_closed_exactly_once_witness:
  "Connect ''localhost'' 5000
     \<in> set (trace (configure_vyos_image_on_node
          (timeout_at 5 (lab_world (configure_prompts ''d28b1973427f736bce1d09e6babe5ec8'')))
          ''router'' ''localhost'' 5000 ''config.sh'' (Some ''konsole'')))
   \<and> status (configure_vyos_image_on_node
         (timeout_at 5 (lab_world (configure_prompts ''d28b1973427f736bce1d09e6babe5ec8'')))
         ''router'' ''localhost'' 5000 ''config.sh'' (Some ''konsole'')) = Returned
   \<and> count_list (trace (configure_vyos_image_on_node
         (timeout_at 5 (lab_world (configure_prompts ''d28b1973427f736bce1d09e6babe5ec8'')))
         ''router'' ''localhost'' 5000 ''config.sh'' (Some ''konsole''))) Close = 1
   \<and> sent (dropWhile (\<lambda>e. e \<noteq> Close) (trace (configure_vyos_image_on_node
         (timeout_at 5 (lab_world (configure_prompts ''d28b1973427f736bce1d09e6babe5ec8'')))
         ''router'' ''localhost'' 5000 ''config.sh'' (Some ''konsole'')))) = []"
proof -
  let ?w = "timeout_at 5 (lab_world (configure_prompts ''d28b1973427f736bce1d09e6babe5ec8''))"
  let ?s = "configure_vyos_image_on_node ?w ''router'' ''localhost'' 5000 ''config.sh''
              (Some ''konsole'')"
  have a1: "?s = install_vyos_image_on_node ?w ''router'' ''localhost'' 5000 (Some ''konsole'')
      \<or> ?s = scenario_install_vyos_image_on_node ?w ''router'' ''localhost'' 5000
      \<or> ?s = configure_vyos_image_on_node ?w ''router'' ''localhost'' 5000 ''config.sh''
                (Some ''konsole'')
      \<or> ?s = scenario_configure_vyos_image_on_node ?w ''router'' ''localhost'' 5000 ''config.sh''"
    by simp
  have a2: "Connect ''localhost'' 5000 \<in> set (trace ?s)" by (simp add: eval_defs)
  have a3: "status ?s = Returned" by (simp add: eval_defs)
  then have a4: "status ?s \<noteq> Blocked" by simp
  show ?thesis
    using transport_closed_exactly_once [OF a1 a2 a4] a2 a3 by simp
qed

text \<open>
  C5 at the example world with the digest read (index 5) timing out.
\<close>

theorem digest_timeout_aborts_witness:
  "Send ''md5sum config.sh\<newline>''
     \<in> set (trace (configure_vyos_image_on_node
          (timeout_at 5 (lab_world (configure_prompts ''d28b1973427f736bce1d09e6babe5ec8'')))
          ''router'' ''localhost'' 5000 ''config.sh'' None))
   \<and> console (timeout_at 5 (lab_world (configure_prompts ''d28b1973427f736bce1d09e6babe5ec8''))) 5
       = NoMatch []
   \<and> status (configure_vyos_image_on_node
         (timeout_at 5 (lab_world (configure_prompts ''d28b1973427f736bce1d09e6babe5ec8'')))
         ''router'' ''localhost'' 5000 ''config.sh'' None) = Returned
   \<and> Warn (str ''Error generating file MD5 checksum.'')
       \<in> set (trace (configure_vyos_image_on_node
            (timeout_at 5 (lab_world (configure_prompts ''d28b1973427f736bce1d09e6babe5ec8'')))
            ''router'' ''localhost'' 5000 ''config.sh'' None))
   \<and> (\<exists>config. sent (trace (configure_vyos_image_on_node
            (timeout_at 5 (lab_world (configure_prompts ''d28b1973427f736bce1d09e6babe5ec8'')))
            ''router'' ''localhost'' 5000 ''config.sh'' None))
         = [''vyos\<newline>'', ''vyos\<newline>'', payload config,
            ''base64 --decode config.b64 > config.sh\<newline>'', ''md5sum config.sh\<newline>''])"
proof -
  let ?w = "timeout_at 5 (lab_world (configure_prompts ''d28b1973427f736bce1d09e6babe5ec8''))"
  let ?s = "configure_vyos_image_on_node ?w ''router'' ''localhost'' 5000 ''config.sh'' None"
  have a1: "?s = configure_vyos_image_on_node ?w ''router'' ''localhost'' 5000 ''config.sh'' None
      \<or> ?s = scenario_configure_vyos_image_on_node ?w ''router'' ''localhost'' 5000 ''config.sh''"
    by simp
  have a2: "Send ''md5sum config.sh\<newline>'' \<in> set (trace ?s)" by (simp add: eval_defs)
  have a3: "console ?w 5 = NoMatch []" by (simp add: world_defs)
  then have a4: "console ?w 5 = NoMatch [] \<or> (console ?w 5 = Eof [] \<and> [] \<noteq> ([] :: bytes))"
    by simp
  show ?thesis
    using digest_timeout_aborts [OF a1 a2 a4] a2 a3 by simp
qed

text \<open>
  C6, amended, at the example world whose console shows every prompt.
\<close>

theorem install_script_fixed_witness:
  "status (install_vyos_image_on_node (lab_world install_prompts) ''router'' ''localhost'' 5000
      None) = Finished
   \<and> sent (trace (install_vyos_image_on_node (lab_world install_prompts) ''router''
        ''localhost'' 5000 None))
       = [''vyos\<newline>'', ''vyos\<newline>'', ''install image\<newline>'', ''Yes\<newline>'',
          ''Auto\<newline>'', ''\<newline>'', ''Yes\<newline>'', ''\<newline>'', ''\<newline>'',
          ''\<newline>'', ''vyos\<newline>'', ''vyos\<newline>'', ''\<newline>'',
          ''poweroff\<newline>'', ''y\<newline>'']"
proof -
  let ?w = "lab_world install_prompts"
  have a1: "connect_ok ?w" by (simp add: world_defs)
  have a2: "truthy None \<longrightarrow> popen_ok ?w" by (simp add: world_defs)
  have a3: "\<forall>k<15. \<exists>t g. console ?w k = Match t g \<and> utf8_decode ?w t \<noteq> None"
    using lab_world_matches [OF prompts_ascii(1)] prompts_ascii(4) by simp
  have a4: "\<forall>k<15. send_ok ?w k" by (simp add: world_defs)
  show ?thesis
    using install_script_fixed [OF a1 a2 a3 a4, of "''router''" "''localhost''" 5000] by simp
qed

text \<open>
  C7 at the example world, file content \<^verbatim>\<open>echo hi\<close>: the bytes on the wire are
  \<^verbatim>\<open>echo 'ZWNobyBoaQ==' >> config.b64\<close> and a line feed.
\<close>

theorem upload_decodes_to_file_content_witness:
  "2 < length (sent (trace (configure_vyos_image_on_node
        (lab_world (configure_prompts ''d28b1973427f736bce1d09e6babe5ec8''))
        ''router'' ''localhost'' 5000 ''config.sh'' None)))
   \<and> sent (trace (configure_vyos_image_on_node
        (lab_world (configure_prompts ''d28b1973427f736bce1d09e6babe5ec8''))
        ''router'' ''localhost'' 5000 ''config.sh'' None)) ! 2
       = ''echo 'ZWNobyBoaQ==' >> config.b64\<newline>''
   \<and> b64encode ''echo hi'' = ''ZWNobyBoaQ==''
   \<and> b64decode (''ZWNobyBoaQ=='' @ ''\<newline>'') = Some ''echo hi''"
proof -
  let ?w = "lab_world (configure_prompts ''d28b1973427f736bce1d09e6babe5ec8'')"
  let ?s = "configure_vyos_image_on_node ?w ''router'' ''localhost'' 5000 ''config.sh'' None"
  have a1: "?s = configure_vyos_image_on_node ?w ''router'' ''localhost'' 5000 ''config.sh'' None
      \<or> ?s = scenario_configure_vyos_image_on_node ?w ''router'' ''localhost'' 5000 ''config.sh''"
    by simp
  have a2: "file_read ?w 1 ''config.sh'' = Some ''echo hi''" by (simp add: world_defs)
  have a3: "2 < length (sent (trace ?s))" by (simp add: eval_defs)
  have e: "b64encode ''echo hi'' = ''ZWNobyBoaQ==''"
    by (simp add: b64_char_def b64_alphabet_def)
  show ?thesis
    using upload_decodes_to_file_content [OF a1 a2 a3] a3 e by simp
qed

text \<open>
  C8 at two calls on different paths and session states that read the same bytes.
\<close>

theorem md5sum_file_pure_witness:
  "md5sum_file (lab_world []) ''config.sh'' start
     = (Some (str ''d28b1973427f736bce1d09e6babe5ec8''),
        emit (FileRead ''config.sh'') (start\<lparr>nfile := Suc (nfile start)\<rparr>))
   \<and> fst (md5sum_file (lab_world []) ''copy.sh'' (emit (Popen ''konsole'') start))
       = fst (md5sum_file (lab_world []) ''config.sh'' start)"
proof -
  have a1: "file_read (lab_world []) (nfile start) ''config.sh'' = Some ''echo hi''"
    by (simp add: lab_world_def)
  have a2: "file_read (lab_world []) (nfile (emit (Popen ''konsole'') start)) ''copy.sh''
      = Some ''echo hi''"
    by (simp add: lab_world_def)
  show ?thesis
    using md5sum_file_pure [OF a1 a2] by (simp add: lab_world_def)
qed

text \<open>
  C9, amended, at the example world.
\<close>

theorem file_read_twice_before_session_witness:
  "Connect ''localhost'' 5000
     \<in> set (trace (configure_vyos_image_on_node
          (lab_world (configure_prompts ''d28b1973427f736bce1d09e6babe5ec8''))
          ''router'' ''localhost'' 5000 ''config.sh'' None))
   \<and> count_list (takeWhile (\<lambda>e. e \<noteq> Connect ''localhost'' 5000)
         (trace (configure_vyos_image_on_node
            (lab_world (configure_prompts ''d28b1973427f736bce1d09e6babe5ec8''))
            ''router'' ''localhost'' 5000 ''config.sh'' None))) (FileRead ''config.sh'') = 2
   \<and> FileRead ''config.sh''
       \<notin> set (dropWhile (\<lambda>e. e \<noteq> Connect ''localhost'' 5000)
           (trace (configure_vyos_image_on_node
              (lab_world (configure_prompts ''d28b1973427f736bce1d09e6babe5ec8''))
              ''router'' ''localhost'' 5000 ''config.sh'' None)))"
proof -
  let ?w = "lab_world (configure_prompts ''d28b1973427f736bce1d09e6babe5ec8'')"
  let ?s = "configure_vyos_image_on_node ?w ''router'' ''localhost'' 5000 ''config.sh'' None"
  have a1: "?s = configure_vyos_image_on_node ?w ''router'' ''localhost'' 5000 ''config.sh'' None
      \<or> ?s = scenario_configure_vyos_image_on_node ?w ''router'' ''localhost'' 5000 ''config.sh''"
    by simp
  have a2: "Connect ''localhost'' 5000 \<in> set (trace ?s)" by (simp add: eval_defs)
  show ?thesis
    using file_read_twice_before_session [OF a1 a2] a2 by simp
qed

text \<open>
  C10 at a telnet node with the wildcard host and at a node with a VNC console.
\<close>

theorem console_endpoint_resolution_witness:
  "get_node_telnet_host_port example_server ''project'' ''node'' (Response 200 example_node)
     = Inr (JString (addr example_server), JNumber 5000)
   \<and> get_node_telnet_host_port example_server ''project'' ''node'' (Response 200 vnc_node)
     = Inl AssertionError"
proof -
  have a1: "(200::nat) < 400 \<or> (600::nat) \<le> 200" by simp
  have a2: "example_node ''console_type'' = Some (JString ''telnet'')"
    "example_node ''console_host'' = Some (JString ''0.0.0.0'')"
    "example_node ''console'' = Some (JNumber 5000)"
    by (simp_all add: example_node_def)
  have a3: "vnc_node ''console_type'' = Some (JString ''vnc'')"
    "vnc_node ''console_host'' = Some (JString ''10.0.0.7'')"
    "vnc_node ''console'' = Some (JNumber 5900)"
    by (simp_all add: vnc_node_def)
  show ?thesis
    using console_endpoint_resolution [OF a1 a2, of example_server "''project''" "''node''"]
      console_endpoint_resolution [OF a1 a3, of example_server "''project''" "''node''"]
    by simp
qed

end
